theory Spec2Isabelle
  imports Complex_Main
begin

section \<open>JavaScript numbers\<close>

text \<open>
  The engine computes with JavaScript numbers. They are modelled as exact reals extended
  by the three non-finite values of IEEE arithmetic, so that a division by zero is a value
  of the model, as it is in the program, and not an unspecified real. Rounding, overflow
  and the sign of zero are not modelled: \<open>x / 0\<close> takes its sign from \<open>x\<close> alone.
\<close>

datatype jsnum = Fin real | PInf | NInf | NaN

fun jneg :: "jsnum \<Rightarrow> jsnum" where
  "jneg (Fin a) = Fin (- a)"
| "jneg PInf = NInf"
| "jneg NInf = PInf"
| "jneg NaN = NaN"

fun jadd :: "jsnum \<Rightarrow> jsnum \<Rightarrow> jsnum" where
  "jadd (Fin a) (Fin b) = Fin (a + b)"
| "jadd NaN _ = NaN"
| "jadd _ NaN = NaN"
| "jadd PInf NInf = NaN"
| "jadd NInf PInf = NaN"
| "jadd PInf _ = PInf"
| "jadd _ PInf = PInf"
| "jadd NInf _ = NInf"
| "jadd _ NInf = NInf"

fun jsign :: "bool \<Rightarrow> jsnum" where
  "jsign True = PInf"
| "jsign False = NInf"

fun jmul :: "jsnum \<Rightarrow> jsnum \<Rightarrow> jsnum" where
  "jmul (Fin a) (Fin b) = Fin (a * b)"
| "jmul NaN _ = NaN"
| "jmul _ NaN = NaN"
| "jmul PInf (Fin b) = (if b = 0 then NaN else jsign (0 < b))"
| "jmul NInf (Fin b) = (if b = 0 then NaN else jsign (b < 0))"
| "jmul (Fin a) PInf = (if a = 0 then NaN else jsign (0 < a))"
| "jmul (Fin a) NInf = (if a = 0 then NaN else jsign (a < 0))"
| "jmul PInf PInf = PInf"
| "jmul NInf NInf = PInf"
| "jmul PInf NInf = NInf"
| "jmul NInf PInf = NInf"

fun jdiv :: "jsnum \<Rightarrow> jsnum \<Rightarrow> jsnum" where
  "jdiv (Fin a) (Fin b) =
     (if b = 0 then (if a = 0 then NaN else jsign (0 < a)) else Fin (a / b))"
| "jdiv NaN _ = NaN"
| "jdiv _ NaN = NaN"
| "jdiv (Fin a) _ = Fin 0"
| "jdiv PInf (Fin b) = jsign (0 \<le> b)"
| "jdiv NInf (Fin b) = jsign (b < 0)"
| "jdiv _ _ = NaN"

fun jless :: "jsnum \<Rightarrow> jsnum \<Rightarrow> bool" where
  "jless (Fin a) (Fin b) = (a < b)"
| "jless NaN _ = False"
| "jless _ NaN = False"
| "jless _ NInf = False"
| "jless PInf _ = False"
| "jless _ _ = True"

fun jsqrt :: "jsnum \<Rightarrow> jsnum" where
  "jsqrt (Fin a) = (if a < 0 then NaN else Fin (sqrt a))"
| "jsqrt PInf = PInf"
| "jsqrt _ = NaN"

fun isFinite :: "jsnum \<Rightarrow> bool" where
  "isFinite (Fin a) = True"
| "isFinite _ = False"

instantiation jsnum :: "{plus, minus, uminus, times, inverse, ord}"
begin

definition plus_jsnum_def [simp]: "a + b = jadd a b"
definition uminus_jsnum_def [simp]: "- a = jneg a"
definition minus_jsnum_def [simp]: "a - b = jadd a (jneg b)"
definition times_jsnum_def [simp]: "a * b = jmul a b"
definition divide_jsnum_def [simp]: "a div b = jdiv a b"
definition inverse_jsnum_def [simp]: "inverse a = jdiv (Fin 1) a"
definition less_jsnum_def [simp]: "a < b = jless a b"
definition less_eq_jsnum_def [simp]: "a \<le> b = (jless a b \<or> (a = b \<and> a \<noteq> NaN))"

instance ..

end

section \<open>Data model\<close>

text \<open>The object types of \<open>GAME_CONSTANTS\<close>, in the order of their numbers 1 to 10.\<close>

datatype kind =
  ROCKET | BALL_SMALL | BALL_LARGE | CREATOR | HOLE | BBALL | APPLE | INSPECTOR | EHOLE | LUNATIC

text \<open>
  A game object as \<open>createGameObject\<close> builds it. The fields \<open>x\<close> and \<open>y\<close> of the source are
  \<open>xpos\<close> and \<open>ypos\<close> here. The fields that only the renderer reads (\<open>rotation\<close>,
  \<open>angularVelocity\<close>, \<open>color\<close>, \<open>sprite\<close>) are left out.
\<close>

record gobj =
  otype :: kind
  xpos :: jsnum
  ypos :: jsnum
  vx :: jsnum
  vy :: jsnum
  fx :: jsnum
  fy :: jsnum
  radius :: jsnum
  mass :: jsnum
  live :: bool
  playerId :: int

datatype phase = Stopped | Running | Paused

datatype sound = collision | ballInHole | rocketDeath | objectDeath | levelCompleteSound

text \<open>
  What the engine sends out: the events of \<open>this.emit\<close> with their payload, and the cues of
  \<open>audioManager.playSound\<close>. \<open>ScoreUpdate score level lives\<close>,
  \<open>ExtraLife score level lives nextLifeAt\<close>, \<open>LevelComplete level score\<close>,
  \<open>GameOver score level\<close>.
\<close>

datatype event =
  ScoreUpdate int int int
| ExtraLife int int int int
| LevelComplete int int
| GameOver int int
| PlaySound sound

text \<open>
  The engine. JavaScript objects are references: \<open>this.objects\<close> and \<open>this.rockets\<close> hold
  the same rocket objects, and every function mutates the objects it is handed. So the
  objects live in a \<open>store\<close> from references to objects, and the arrays hold references.
  \<open>nextRef\<close> is the next unused reference. \<open>emitted\<close> logs what was sent, oldest first.
  \<open>random\<close> is the sequence of values \<open>Math.random()\<close> returns and \<open>randomUsed\<close> how many
  of them were taken. \<open>screenWidth\<close> and \<open>screenHeight\<close> are \<open>this.app.screen.width\<close> and
  \<open>this.app.screen.height\<close>.
\<close>

record engine =
  store :: "nat \<Rightarrow> gobj"
  nextRef :: nat
  objects :: "nat list"
  rockets :: "nat list"
  balls :: "nat list"
  gameState :: phase
  level :: int
  score :: int
  lives :: int
  nextLifeAt :: int
  playerCount :: nat
  deltaTime :: jsnum
  screenWidth :: jsnum
  screenHeight :: jsnum
  emitted :: "event list"
  random :: "nat \<Rightarrow> real"
  randomUsed :: nat

definition GRAVITY_STRENGTH :: jsnum where
  "GRAVITY_STRENGTH = Fin 1000"

definition MIN_GRAVITY_DISTANCE :: jsnum where
  "MIN_GRAVITY_DISTANCE = Fin 30"

definition MAX_GRAVITY_DISTANCE :: jsnum where
  "MAX_GRAVITY_DISTANCE = Fin 150"

definition emit :: "event \<Rightarrow> engine \<Rightarrow> engine" where
  "emit e s = s\<lparr>emitted := emitted s @ [e]\<rparr>"

definition playSound :: "sound \<Rightarrow> engine \<Rightarrow> engine" where
  "playSound c s = emit (PlaySound c) s"

text \<open>An assignment to fields of the object behind reference \<open>r\<close>.\<close>

definition mutate :: "nat \<Rightarrow> (gobj \<Rightarrow> gobj) \<Rightarrow> engine \<Rightarrow> engine" where
  "mutate r f s = s\<lparr>store := (store s)(r := f (store s r))\<rparr>"

section \<open>Scoring: the extra life\<close>

definition checkExtraLife :: "engine \<Rightarrow> engine" where
  "checkExtraLife s =
     (let s1 =
        (if score s \<ge> nextLifeAt s then
           (let s2 = s\<lparr>lives := lives s + 1\<rparr>;
                s3 = s2\<lparr>nextLifeAt := nextLifeAt s2 + 500\<rparr>;
                s4 = playSound levelCompleteSound s3
            in emit (ExtraLife (score s4) (level s4) (lives s4) (nextLifeAt s4)) s4)
         else s)
      in emit (ScoreUpdate (score s1) (level s1) (lives s1)) s1)"


section \<open>Creating objects\<close>

fun getRadius :: "kind \<Rightarrow> jsnum" where
  "getRadius ROCKET = Fin 14"
| "getRadius BALL_SMALL = Fin 8"
| "getRadius BALL_LARGE = Fin 16"
| "getRadius BBALL = Fin 16"
| "getRadius HOLE = Fin 12"
| "getRadius APPLE = Fin 32"
| "getRadius INSPECTOR = Fin 14"
| "getRadius LUNATIC = Fin 10"
| "getRadius _ = Fin 10"

fun getMass :: "kind \<Rightarrow> jsnum" where
  "getMass ROCKET = Fin 4"
| "getMass BALL_SMALL = Fin 3"
| "getMass BALL_LARGE = Fin 6"
| "getMass BBALL = Fin 8"
| "getMass APPLE = Fin 34"
| "getMass INSPECTOR = Fin 2"
| "getMass LUNATIC = Fin 3.14"
| "getMass _ = Fin 1"

text \<open>
  The argument of \<open>createGameObject\<close>. Its callers always give \<open>type\<close>, \<open>x\<close> and \<open>y\<close>;
  \<open>vx\<close>, \<open>vy\<close> and \<open>playerId\<close> may be missing.
\<close>

record config =
  c_type :: kind
  c_x :: jsnum
  c_y :: jsnum
  c_vx :: "jsnum option"
  c_vy :: "jsnum option"
  c_playerId :: "int option"

text \<open>\<open>v || 0\<close> on a number: zero and NaN are falsy.\<close>

definition orZero :: "jsnum \<Rightarrow> jsnum" where
  "orZero v = (if v = Fin 0 \<or> v = NaN then Fin 0 else v)"

definition createGameObject :: "config \<Rightarrow> engine \<Rightarrow> nat \<times> engine" where
  "createGameObject c s =
     (let obj = \<lparr>otype = c_type c,
                 xpos = orZero (c_x c),
                 ypos = orZero (c_y c),
                 vx = (case c_vx c of None \<Rightarrow> Fin 0 | Some v \<Rightarrow> orZero v),
                 vy = (case c_vy c of None \<Rightarrow> Fin 0 | Some v \<Rightarrow> orZero v),
                 fx = Fin 0,
                 fy = Fin 0,
                 radius = getRadius (c_type c),
                 mass = getMass (c_type c),
                 live = True,
                 playerId = (case c_playerId c of None \<Rightarrow> - 1
                             | Some p \<Rightarrow> if p = 0 then - 1 else p)\<rparr>;
          r = nextRef s
      in (r, s\<lparr>store := (store s)(r := obj), nextRef := r + 1, objects := objects s @ [r]\<rparr>))"

text \<open>\<open>Math.random()\<close>: the next value of the sequence.\<close>

definition mathRandom :: "engine \<Rightarrow> jsnum \<times> engine" where
  "mathRandom s = (Fin (random s (randomUsed s)), s\<lparr>randomUsed := randomUsed s + 1\<rparr>)"

fun jcos :: "jsnum \<Rightarrow> jsnum" where
  "jcos (Fin a) = Fin (cos a)"
| "jcos _ = NaN"

fun jsin :: "jsnum \<Rightarrow> jsnum" where
  "jsin (Fin a) = Fin (sin a)"
| "jsin _ = NaN"

definition jmin :: "jsnum \<Rightarrow> jsnum \<Rightarrow> jsnum" where
  "jmin a b = (if a = NaN \<or> b = NaN then NaN else if b < a then b else a)"

definition jmax :: "jsnum \<Rightarrow> jsnum \<Rightarrow> jsnum" where
  "jmax a b = (if a = NaN \<or> b = NaN then NaN else if a < b then b else a)"

definition isPositionSafeFromGravity :: "jsnum \<Rightarrow> jsnum \<Rightarrow> engine \<Rightarrow> bool" where
  "isPositionSafeFromGravity px py s =
     list_all (\<lambda>r.
        let obj = store s r in
        \<not> (otype obj = HOLE \<and> live obj \<and>
           (let dx = xpos obj - px; dy = ypos obj - py;
                distance = jsqrt (dx * dx + dy * dy)
            in distance < MAX_GRAVITY_DISTANCE)))
       (objects s)"

definition getFallbackSpawnPosition :: "engine \<Rightarrow> jsnum \<times> jsnum" where
  "getFallbackSpawnPosition s = (screenWidth s / Fin 2, screenHeight s / Fin 2)"

text \<open>The loop of \<open>findSafeSpawnPosition\<close> over the attempts still to make.\<close>

fun spiralSearch :: "engine \<Rightarrow> jsnum \<times> jsnum \<Rightarrow> nat list \<Rightarrow> (jsnum \<times> jsnum) option" where
  "spiralSearch s p [] = None"
| "spiralSearch s p (attempt # rest) =
     (let angle = (Fin (real attempt) * Fin 137.5 * Fin pi) / Fin 180;
          rad = Fin 50 + Fin (real attempt) * Fin 10;
          testX = fst p + jcos angle * rad;
          testY = snd p + jsin angle * rad;
          clampedX = jmax (Fin 50) (jmin (screenWidth s - Fin 50) testX);
          clampedY = jmax (Fin 50) (jmin (screenHeight s - Fin 50) testY)
      in if isPositionSafeFromGravity clampedX clampedY s then Some (clampedX, clampedY)
         else spiralSearch s p rest)"

definition findSafeSpawnPosition :: "jsnum \<times> jsnum \<Rightarrow> engine \<Rightarrow> jsnum \<times> jsnum" where
  "findSafeSpawnPosition p s =
     (if isPositionSafeFromGravity (fst p) (snd p) s then p
      else case spiralSearch s p [0..<50] of
             Some q \<Rightarrow> q
           | None \<Rightarrow> getFallbackSpawnPosition s)"

text \<open>
  What the source can throw: \<open>rocketPositions[i]\<close> is \<open>undefined\<close> from the sixth player
  on, and \<open>findSafeSpawnPosition\<close> reads its \<open>x\<close>.
\<close>

datatype error = TypeError

definition andThen :: "error + 'a \<Rightarrow> ('a \<Rightarrow> error + 'b) \<Rightarrow> error + 'b" where
  "andThen m f = (case m of Inl e \<Rightarrow> Inl e | Inr a \<Rightarrow> f a)"

definition rocketPositions :: "engine \<Rightarrow> (jsnum \<times> jsnum) list" where
  "rocketPositions s =
     [(screenWidth s * Fin 0.125, screenHeight s * Fin 0.5),
      (screenWidth s * Fin 0.875, screenHeight s * Fin 0.5),
      (screenWidth s * Fin 0.5, screenHeight s * Fin 0.167),
      (screenWidth s * Fin 0.5, screenHeight s * Fin 0.833),
      (screenWidth s * Fin 0.25, screenHeight s * Fin 0.333)]"

fun createRocketsLoop :: "nat list \<Rightarrow> engine \<Rightarrow> error + engine" where
  "createRocketsLoop [] s = Inr s"
| "createRocketsLoop (i # rest) s =
     (if i < length (rocketPositions s) then
        (let safePosition = findSafeSpawnPosition (rocketPositions s ! i) s;
             (rocket, s) = createGameObject
                \<lparr>c_type = ROCKET, c_x = fst safePosition, c_y = snd safePosition,
                 c_vx = None, c_vy = None, c_playerId = Some (int i)\<rparr> s
         in createRocketsLoop rest (s\<lparr>rockets := rockets s @ [rocket]\<rparr>))
      else Inl TypeError)"

definition createRockets :: "engine \<Rightarrow> error + engine" where
  "createRockets s = createRocketsLoop [0..<playerCount s] s"

definition createBall :: "engine \<Rightarrow> engine" where
  "createBall s =
     (let (r0, s) = mathRandom s;
          isLarge = r0 < Fin 0.25;
          ballType = (if isLarge then BALL_LARGE else BALL_SMALL);
          (r1, s) = mathRandom s;
          (r2, s) = mathRandom s;
          (r3, s) = mathRandom s;
          (r4, s) = mathRandom s;
          (ball, s) = createGameObject
             \<lparr>c_type = ballType,
              c_x = r1 * (screenWidth s - Fin 100) + Fin 50,
              c_y = r2 * (screenHeight s - Fin 100) + Fin 50,
              c_vx = Some ((r3 - Fin 0.5) * Fin 2),
              c_vy = Some ((r4 - Fin 0.5) * Fin 2),
              c_playerId = None\<rparr> s
      in s\<lparr>balls := balls s @ [ball]\<rparr>)"

definition createBalls :: "engine \<Rightarrow> engine" where
  "createBalls s = (createBall ^^ nat (min (8 + level s) 15)) s"

definition createHole :: "engine \<Rightarrow> engine" where
  "createHole s =
     (let (r1, s) = mathRandom s;
          (r2, s) = mathRandom s
      in snd (createGameObject
           \<lparr>c_type = HOLE, c_x = r1 * screenWidth s, c_y = r2 * screenHeight s,
            c_vx = None, c_vy = None, c_playerId = None\<rparr> s))"

definition createBigBall :: "engine \<Rightarrow> engine" where
  "createBigBall s =
     (let (r1, s) = mathRandom s;
          (r2, s) = mathRandom s;
          (r3, s) = mathRandom s;
          (r4, s) = mathRandom s
      in snd (createGameObject
           \<lparr>c_type = BBALL, c_x = r1 * screenWidth s, c_y = r2 * screenHeight s,
            c_vx = Some (r3 - Fin 0.5), c_vy = Some (r4 - Fin 0.5),
            c_playerId = None\<rparr> s))"

definition createSpecialObjects :: "engine \<Rightarrow> engine" where
  "createSpecialObjects s =
     (let s = (if level s > 2 then (createHole ^^ nat (min (level s - 2) 3)) s else s)
      in if level s > 3 then (createBigBall ^^ nat (min (level s - 3) 2)) s else s)"

definition clearGame :: "engine \<Rightarrow> engine" where
  "clearGame s = s\<lparr>objects := [], rockets := [], balls := []\<rparr>"

definition initLevel :: "engine \<Rightarrow> error + engine" where
  "initLevel s =
     andThen (createRockets s) (\<lambda>s.
       let s = createBalls s
       in Inr (if level s > 1 then createSpecialObjects s else s))"

definition restartLevel :: "engine \<Rightarrow> error + engine" where
  "restartLevel s =
     andThen (initLevel (clearGame s)) (\<lambda>s. Inr (s\<lparr>gameState := Running\<rparr>))"

section \<open>One tick\<close>

record controls =
  up :: bool
  down :: bool
  left :: bool
  right :: bool
  brake :: bool

text \<open>
  The body of the \<open>forEach\<close> of \<open>processInput\<close>, for the rocket behind \<open>rocket\<close> at position
  \<open>index\<close> of \<open>this.rockets\<close>. \<open>input\<close> is \<open>inputManager.getPlayerControls\<close>.
\<close>

definition processRocket :: "(nat \<Rightarrow> controls) \<Rightarrow> nat \<times> nat \<Rightarrow> engine \<Rightarrow> engine" where
  "processRocket input ri s =
     (let rocket = fst ri; index = snd ri in
      if \<not> live (store s rocket) then s
      else
        (let c = input index;
             s = mutate rocket (\<lambda>obj. obj\<lparr>fx := Fin 0\<rparr>) s;
             s = mutate rocket (\<lambda>obj. obj\<lparr>fy := Fin 0\<rparr>) s;
             thrustForce = Fin 0.8;
             brakeForce = Fin 0.95;
             s = (if up c then mutate rocket (\<lambda>obj. obj\<lparr>fy := fy obj - thrustForce\<rparr>) s else s);
             s = (if down c then mutate rocket (\<lambda>obj. obj\<lparr>fy := fy obj + thrustForce\<rparr>) s else s);
             s = (if left c then mutate rocket (\<lambda>obj. obj\<lparr>fx := fx obj - thrustForce\<rparr>) s else s);
             s = (if right c then mutate rocket (\<lambda>obj. obj\<lparr>fx := fx obj + thrustForce\<rparr>) s else s)
         in if brake c then
              (let s = mutate rocket (\<lambda>obj. obj\<lparr>fx := fx obj - vx obj * Fin 0.1\<rparr>) s;
                   s = mutate rocket (\<lambda>obj. obj\<lparr>fy := fy obj - vy obj * Fin 0.1\<rparr>) s;
                   s = mutate rocket (\<lambda>obj. obj\<lparr>vx := vx obj * brakeForce\<rparr>) s
               in mutate rocket (\<lambda>obj. obj\<lparr>vy := vy obj * brakeForce\<rparr>) s)
            else s))"

definition processInput :: "(nat \<Rightarrow> controls) \<Rightarrow> engine \<Rightarrow> engine" where
  "processInput input s =
     fold (processRocket input) (zip (rockets s) [0..<length (rockets s)]) s"

text \<open>
  The body of the \<open>forEach\<close> of \<open>applyGravity\<close>: what the object behind \<open>hole\<close> adds to the
  force on the object behind \<open>r\<close>.
\<close>

definition gravityFrom :: "nat \<Rightarrow> nat \<Rightarrow> engine \<Rightarrow> engine" where
  "gravityFrom r hole s =
     (if \<not> live (store s hole) \<or> otype (store s hole) \<noteq> HOLE then s
      else
        (let dx = xpos (store s hole) - xpos (store s r);
             dy = ypos (store s hole) - ypos (store s r);
             distance = jsqrt (dx * dx + dy * dy)
         in if distance < MAX_GRAVITY_DISTANCE \<and> distance > MIN_GRAVITY_DISTANCE then
              (let gravityForce = GRAVITY_STRENGTH / (distance * distance);
                   nx = dx / distance;
                   ny = dy / distance;
                   s = mutate r (\<lambda>obj. obj\<lparr>fx := fx obj + nx * gravityForce\<rparr>) s
               in mutate r (\<lambda>obj. obj\<lparr>fy := fy obj + ny * gravityForce\<rparr>) s)
            else s))"

definition applyGravity :: "nat \<Rightarrow> engine \<Rightarrow> engine" where
  "applyGravity r s =
     (if otype (store s r) = HOLE then s
      else fold (gravityFrom r) (objects s) s)"

definition keepInBounds :: "nat \<Rightarrow> engine \<Rightarrow> engine" where
  "keepInBounds r s =
     (let obj = store s r;
          margin = radius obj;
          hitLeft = xpos obj < margin;
          hitRight = xpos obj > screenWidth s - margin;
          hitTop = ypos obj < margin;
          hitBottom = ypos obj > screenHeight s - margin
      in if hitLeft \<or> hitRight \<or> hitTop \<or> hitBottom then
           (if otype obj = HOLE then s
            else
              (let s = mutate r (\<lambda>obj. obj\<lparr>live := False\<rparr>) s;
                   s = (if otype obj = BALL_SMALL then
                          checkExtraLife (s\<lparr>score := score s + 5\<rparr>)
                        else if otype obj = BALL_LARGE then
                          checkExtraLife (s\<lparr>score := score s + 10\<rparr>)
                        else s)
               in if otype obj = ROCKET then playSound rocketDeath s
                  else playSound objectDeath s))
         else s)"

text \<open>
  The four steps of \<open>updatePhysics\<close> that touch the object alone, in the order of the
  source: acceleration from the force, friction, the cap on the speed, the move. The test
  \<open>obj.fx !== undefined && obj.fy !== undefined\<close> always holds, as \<open>createGameObject\<close> sets
  both fields to numbers.
\<close>

definition applyForces :: "jsnum \<Rightarrow> gobj \<Rightarrow> gobj" where
  "applyForces dt obj =
     (let ax = fx obj / mass obj;
          ay = fy obj / mass obj;
          obj = obj\<lparr>vx := vx obj + ax * dt\<rparr>
      in obj\<lparr>vy := vy obj + ay * dt\<rparr>)"

definition applyFriction :: "gobj \<Rightarrow> gobj" where
  "applyFriction obj =
     (let friction = (if otype obj = ROCKET then Fin 0.98 else Fin 0.995);
          obj = obj\<lparr>vx := vx obj * friction\<rparr>
      in obj\<lparr>vy := vy obj * friction\<rparr>)"

definition maxVel :: "kind \<Rightarrow> jsnum" where
  "maxVel k = (if k = ROCKET then Fin 8 else Fin 6)"

definition capVelocity :: "gobj \<Rightarrow> gobj" where
  "capVelocity obj =
     (let maxv = maxVel (otype obj);
          vel = jsqrt (vx obj * vx obj + vy obj * vy obj)
      in if vel > maxv then
           (let obj = obj\<lparr>vx := (vx obj / vel) * maxv\<rparr>
            in obj\<lparr>vy := (vy obj / vel) * maxv\<rparr>)
         else obj)"

definition updatePosition :: "gobj \<Rightarrow> gobj" where
  "updatePosition obj =
     (let obj = obj\<lparr>xpos := xpos obj + vx obj\<rparr>
      in obj\<lparr>ypos := ypos obj + vy obj\<rparr>)"

text \<open>The body of the \<open>forEach\<close> of \<open>updatePhysics\<close>.\<close>

definition updateObject :: "nat \<Rightarrow> engine \<Rightarrow> engine" where
  "updateObject r s =
     (if \<not> live (store s r) then s
      else
        (let s = applyGravity r s;
             s = mutate r (applyForces (deltaTime s)) s;
             s = mutate r applyFriction s;
             s = mutate r capVelocity s;
             s = mutate r updatePosition s
         in keepInBounds r s))"

definition updatePhysics :: "engine \<Rightarrow> engine" where
  "updatePhysics s = fold updateObject (objects s) s"

definition isBall :: "gobj \<Rightarrow> bool" where
  "isBall obj = (otype obj = BALL_SMALL \<or> otype obj = BALL_LARGE)"

definition handleSpecialCollisions :: "nat \<Rightarrow> nat \<Rightarrow> engine \<Rightarrow> engine" where
  "handleSpecialCollisions r1 r2 s =
     (let obj1 = store s r1; obj2 = store s r2 in
      if (isBall obj1 \<and> otype obj2 = HOLE) \<or> (isBall obj2 \<and> otype obj1 = HOLE) then
        (let ball = (if isBall obj1 then r1 else r2);
             s = mutate ball (\<lambda>obj. obj\<lparr>live := False\<rparr>) s;
             s = (if otype (store s ball) = BALL_SMALL then s\<lparr>score := score s + 10\<rparr>
                  else if otype (store s ball) = BALL_LARGE then s\<lparr>score := score s + 20\<rparr>
                  else s);
             s = checkExtraLife s
         in playSound ballInHole s)
      else if (otype obj1 = ROCKET \<and> otype obj2 = HOLE) \<or>
              (otype obj2 = ROCKET \<and> otype obj1 = HOLE) then
        (let rocket = (if otype obj1 = ROCKET then r1 else r2);
             s = mutate rocket (\<lambda>obj. obj\<lparr>live := False\<rparr>) s
         in playSound rocketDeath s)
      else s)"

text \<open>
  \<open>handleCollision\<close> in the three blocks of the source: the objects are pushed apart, the
  relative velocity along the normal is tested, the impulse is applied. Every statement
  reads the objects as the statements before it left them.
\<close>

definition separateObjects :: "nat \<Rightarrow> nat \<Rightarrow> jsnum \<Rightarrow> jsnum \<Rightarrow> jsnum \<Rightarrow> engine \<Rightarrow> engine" where
  "separateObjects r1 r2 nx ny overlap s =
     (let s = mutate r1 (\<lambda>obj. obj\<lparr>xpos := xpos obj - nx * overlap\<rparr>) s;
          s = mutate r1 (\<lambda>obj. obj\<lparr>ypos := ypos obj - ny * overlap\<rparr>) s;
          s = mutate r2 (\<lambda>obj. obj\<lparr>xpos := xpos obj + nx * overlap\<rparr>) s
      in mutate r2 (\<lambda>obj. obj\<lparr>ypos := ypos obj + ny * overlap\<rparr>) s)"

definition applyImpulse :: "nat \<Rightarrow> nat \<Rightarrow> jsnum \<Rightarrow> jsnum \<Rightarrow> jsnum \<Rightarrow> engine \<Rightarrow> engine" where
  "applyImpulse r1 r2 nx ny impulse s =
     (let s = mutate r1 (\<lambda>obj. obj\<lparr>vx := vx obj + impulse * mass (store s r2) * nx\<rparr>) s;
          s = mutate r1 (\<lambda>obj. obj\<lparr>vy := vy obj + impulse * mass (store s r2) * ny\<rparr>) s;
          s = mutate r2 (\<lambda>obj. obj\<lparr>vx := vx obj - impulse * mass (store s r1) * nx\<rparr>) s
      in mutate r2 (\<lambda>obj. obj\<lparr>vy := vy obj - impulse * mass (store s r1) * ny\<rparr>) s)"

definition handleCollision ::
  "nat \<Rightarrow> nat \<Rightarrow> jsnum \<Rightarrow> jsnum \<Rightarrow> jsnum \<Rightarrow> engine \<Rightarrow> engine" where
  "handleCollision r1 r2 dx dy distance s =
     (let nx = dx / distance;
          ny = dy / distance;
          overlap = (radius (store s r1) + radius (store s r2) - distance) / Fin 2;
          s = separateObjects r1 r2 nx ny overlap s;
          dvx = vx (store s r2) - vx (store s r1);
          dvy = vy (store s r2) - vy (store s r1);
          dvn = dvx * nx + dvy * ny
      in if dvn > Fin 0 then s
         else
           (let impulse = (Fin 2 * dvn) / (mass (store s r1) + mass (store s r2));
                s = applyImpulse r1 r2 nx ny impulse s;
                s = handleSpecialCollisions r1 r2 s
            in playSound collision s))"

text \<open>The body of the inner loop of \<open>checkCollisions\<close>, for \<open>obj1\<close> behind \<open>r1\<close> and \<open>obj2\<close> behind \<open>r2\<close>.\<close>

definition checkPair :: "nat \<Rightarrow> nat \<Rightarrow> engine \<Rightarrow> engine" where
  "checkPair r1 r2 s =
     (let obj1 = store s r1; obj2 = store s r2 in
      if \<not> live obj1 \<or> \<not> live obj2 then s
      else
        (let dx = xpos obj2 - xpos obj1;
             dy = ypos obj2 - ypos obj1;
             distance = jsqrt (dx * dx + dy * dy);
             minDistance = radius obj1 + radius obj2
         in if distance < minDistance then handleCollision r1 r2 dx dy distance s
            else s))"

definition checkCollisions :: "engine \<Rightarrow> engine" where
  "checkCollisions s =
     (let objs = objects s; n = length objs
      in fold (\<lambda>i. fold (\<lambda>j. checkPair (objs ! i) (objs ! j)) [i + 1..<n]) [0..<n] s)"

text \<open>
  \<open>updateObjects\<close> copies the positions to the sprites and drops the dead objects from
  \<open>this.objects\<close>; every object has a sprite. \<open>this.rockets\<close> keeps its references.
\<close>

definition updateObjects :: "engine \<Rightarrow> engine" where
  "updateObjects s = s\<lparr>objects := filter (\<lambda>r. live (store s r)) (objects s)\<rparr>"

definition aliveBalls :: "engine \<Rightarrow> nat list" where
  "aliveBalls s = filter (\<lambda>r. live (store s r) \<and> isBall (store s r)) (objects s)"

definition aliveRockets :: "engine \<Rightarrow> nat list" where
  "aliveRockets s = filter (\<lambda>r. live (store s r)) (rockets s)"

definition checkGameState :: "engine \<Rightarrow> error + engine" where
  "checkGameState s =
     (let s = (if length (aliveBalls s) = 0 then emit (LevelComplete (level s) (score s)) s
               else s)
      in if length (aliveRockets s) = 0 then
           (let s = s\<lparr>lives := lives s - 1\<rparr>
            in if lives s \<le> 0 then Inr (emit (GameOver (score s) (level s)) s)
               else restartLevel s)
         else Inr s)"

text \<open>
  \<open>gameLoop\<close>, one tick. \<open>updateGravityEffects\<close> changes sprites only and is left out, as
  are the particles of \<open>createExplosion\<close> in \<open>keepInBounds\<close> and \<open>handleSpecialCollisions\<close>
  and the rotation of the rocket's sprite in \<open>updatePhysics\<close>.
\<close>

definition gameLoop :: "jsnum \<Rightarrow> (nat \<Rightarrow> controls) \<Rightarrow> engine \<Rightarrow> error + engine" where
  "gameLoop delta input s =
     (if gameState s \<noteq> Running then Inr s
      else
        (let s = s\<lparr>deltaTime := delta / Fin 60\<rparr>;
             s = processInput input s;
             s = updatePhysics s;
             s = checkCollisions s;
             s = updateObjects s
         in andThen (checkGameState s) (\<lambda>s.
              Inr (emit (ScoreUpdate (score s) (level s) (lives s)) s))))"

definition pause :: "engine \<Rightarrow> engine" where
  "pause s = s\<lparr>gameState := Paused\<rparr>"

definition resume :: "engine \<Rightarrow> engine" where
  "resume s = s\<lparr>gameState := Running\<rparr>"

definition stop :: "engine \<Rightarrow> engine" where
  "stop s = s\<lparr>gameState := Stopped\<rparr>"

section \<open>What the properties speak about\<close>

text \<open>The number of extra-life notifications in a log.\<close>

fun isExtraLife :: "event \<Rightarrow> bool" where
  "isExtraLife (ExtraLife _ _ _ _) = True"
| "isExtraLife _ = False"

definition extraLives :: "engine \<Rightarrow> nat" where
  "extraLives s = length (filter isExtraLife (emitted s))"

text \<open>The total momentum of two objects, by component: the sum of mass times velocity.\<close>

definition momentumX :: "nat \<Rightarrow> nat \<Rightarrow> engine \<Rightarrow> jsnum" where
  "momentumX r1 r2 s =
     mass (store s r1) * vx (store s r1) + mass (store s r2) * vx (store s r2)"

definition momentumY :: "nat \<Rightarrow> nat \<Rightarrow> engine \<Rightarrow> jsnum" where
  "momentumY r1 r2 s =
     mass (store s r1) * vy (store s r1) + mass (store s r2) * vy (store s r2)"

text \<open>The test of \<open>keepInBounds\<close>: the object behind \<open>r\<close> is nearer than its radius to an edge.\<close>

definition touchesWall :: "nat \<Rightarrow> engine \<Rightarrow> bool" where
  "touchesWall r s =
     (xpos (store s r) < radius (store s r) \<or>
      xpos (store s r) > screenWidth s - radius (store s r) \<or>
      ypos (store s r) < radius (store s r) \<or>
      ypos (store s r) > screenHeight s - radius (store s r))"

definition wallPoints :: "kind \<Rightarrow> int" where
  "wallPoints k = (if k = BALL_SMALL then 5 else if k = BALL_LARGE then 10 else 0)"

definition deathSound :: "kind \<Rightarrow> sound" where
  "deathSound k = (if k = ROCKET then rocketDeath else objectDeath)"

text \<open>
  What an object \<open>hole\<close> adds to the force on an object at \<open>(x1, y1)\<close>, as the body of
  the \<open>forEach\<close> of \<open>applyGravity\<close> computes it on finite numbers.
\<close>

definition pull :: "real \<Rightarrow> real \<Rightarrow> gobj \<Rightarrow> real \<times> real" where
  "pull x1 y1 hole =
     (case (xpos hole, ypos hole) of
        (Fin x2, Fin y2) \<Rightarrow>
          (let dx = x2 - x1; dy = y2 - y1; d = sqrt (dx * dx + dy * dy)
           in if live hole \<and> otype hole = HOLE \<and> d < 150 \<and> 30 < d
              then (dx / d * (1000 / (d * d)), dy / d * (1000 / (d * d)))
              else (0, 0))
      | _ \<Rightarrow> (0, 0))"

text \<open>
  The steps of the body of the \<open>forEach\<close> of \<open>updatePhysics\<close> before the call of
  \<open>keepInBounds\<close>: the object after its move. \<open>turnOf i s\<close> is the engine when that loop
  reaches position \<open>i\<close> of \<open>this.objects\<close>: the objects before it have had their step.
\<close>

definition moveObject :: "nat \<Rightarrow> engine \<Rightarrow> engine" where
  "moveObject r s =
     (let s = applyGravity r s;
          s = mutate r (applyForces (deltaTime s)) s;
          s = mutate r applyFriction s;
          s = mutate r capVelocity s
      in mutate r updatePosition s)"

definition turnOf :: "nat \<Rightarrow> engine \<Rightarrow> engine" where
  "turnOf i s = fold updateObject (take i (objects s)) s"

text \<open>The length of the velocity, as \<open>updatePhysics\<close> computes it.\<close>

definition speed :: "gobj \<Rightarrow> jsnum" where
  "speed obj = jsqrt (vx obj * vx obj + vy obj * vy obj)"

text \<open>
  \<open>sameScalars s t\<close>: the engine \<open>t\<close> has the level, score, lives, threshold, log, player
  count, screen and phase of \<open>s\<close>.
\<close>

definition sameScalars :: "engine \<Rightarrow> engine \<Rightarrow> bool" where
  "sameScalars s t =
     (level t = level s \<and> score t = score s \<and> lives t = lives s \<and>
      nextLifeAt t = nextLifeAt s \<and> emitted t = emitted s \<and> playerCount t = playerCount s \<and>
      screenWidth t = screenWidth s \<and> screenHeight t = screenHeight s \<and>
      gameState t = gameState s)"

text \<open>
  \<open>spawned s\<close>: every object of \<open>this.objects\<close> has been created and is alive, the
  entries of \<open>this.rockets\<close> are rockets among them, the entries of \<open>this.balls\<close> are
  balls among them.
\<close>

definition spawned :: "engine \<Rightarrow> bool" where
  "spawned s =
     ((\<forall>r\<in>set (objects s). r < nextRef s \<and> live (store s r)) \<and>
      (\<forall>r\<in>set (rockets s). r \<in> set (objects s) \<and> otype (store s r) = ROCKET) \<and>
      (\<forall>r\<in>set (balls s). r \<in> set (objects s) \<and> isBall (store s r)))"

text \<open>
  The counters that scoring touches, read off the engine: the score, the threshold of the
  next life, the lives, the number of \<open>extraLife\<close> events sent so far, and the player
  count. \<open>award p\<close> is what \<open>score += p; checkExtraLife()\<close> does to them, and
  \<open>scoring c d\<close> says that \<open>d\<close> comes from \<open>c\<close> by awards of points that are not negative.
\<close>

record counters =
  cScore :: int
  cNext :: int
  cLives :: int
  cGranted :: nat
  cPlayers :: nat

definition countersOf :: "engine \<Rightarrow> counters" where
  "countersOf s =
     \<lparr>cScore = score s, cNext = nextLifeAt s, cLives = lives s, cGranted = extraLives s,
      cPlayers = playerCount s\<rparr>"

definition award :: "int \<Rightarrow> counters \<Rightarrow> counters" where
  "award p c =
     (if cScore c + p \<ge> cNext c then
        c\<lparr>cScore := cScore c + p, cNext := cNext c + 500, cLives := cLives c + 1,
          cGranted := cGranted c + 1\<rparr>
      else c\<lparr>cScore := cScore c + p\<rparr>)"

inductive scoring :: "counters \<Rightarrow> counters \<Rightarrow> bool" where
  scoring_none: "scoring c c"
| scoring_more: "scoring c d \<Longrightarrow> 0 \<le> p \<Longrightarrow> scoring c (award p d)"

section \<open>Example states\<close>

text \<open>
  The engine as its constructor leaves it, on a screen of the given size. No object has
  been created: every reference of the store holds \<open>noObject\<close>, which no array mentions.
\<close>

definition noObject :: gobj where
  "noObject = \<lparr>otype = CREATOR, xpos = Fin 0, ypos = Fin 0, vx = Fin 0, vy = Fin 0,
               fx = Fin 0, fy = Fin 0, radius = Fin 10, mass = Fin 1, live = False,
               playerId = - 1\<rparr>"

definition newEngine :: "jsnum \<Rightarrow> jsnum \<Rightarrow> (nat \<Rightarrow> real) \<Rightarrow> engine" where
  "newEngine w h rnd =
     \<lparr>store = (\<lambda>_. noObject), nextRef = 0, objects = [], rockets = [], balls = [],
      gameState = Stopped, level = 1, score = 0, lives = 3, nextLifeAt = 500,
      playerCount = 1, deltaTime = Fin 0, screenWidth = w, screenHeight = h,
      emitted = [], random = rnd, randomUsed = 0\<rparr>"

definition arena :: engine where
  "arena = newEngine (Fin 800) (Fin 600) (\<lambda>_. 1 / 2)"

text \<open>
  \<open>place k x y u w\<close> creates an object of kind \<open>k\<close> at \<open>(x, y)\<close> with velocity \<open>(u, w)\<close>, as
  \<open>createGameObject\<close> does; \<open>placeRocket\<close> also enters it in \<open>this.rockets\<close>, as
  \<open>createRockets\<close> does.
\<close>

definition place :: "kind \<Rightarrow> real \<Rightarrow> real \<Rightarrow> real \<Rightarrow> real \<Rightarrow> engine \<Rightarrow> engine" where
  "place k x y u w s =
     snd (createGameObject
       \<lparr>c_type = k, c_x = Fin x, c_y = Fin y, c_vx = Some (Fin u), c_vy = Some (Fin w),
        c_playerId = None\<rparr> s)"

definition placeRocket :: "real \<Rightarrow> real \<Rightarrow> real \<Rightarrow> real \<Rightarrow> engine \<Rightarrow> engine" where
  "placeRocket x y u w s =
     (let (rocket, s) = createGameObject
        \<lparr>c_type = ROCKET, c_x = Fin x, c_y = Fin y, c_vx = Some (Fin u), c_vy = Some (Fin w),
         c_playerId = Some (int (length (rockets s)))\<rparr> s
      in s\<lparr>rockets := rockets s @ [rocket]\<rparr>)"

text \<open>Two balls that approach each other head on, their circles overlapping.\<close>

definition duel :: engine where
  "duel = place BALL_LARGE 110 100 (- 2) 0 (place BALL_SMALL 100 100 2 0 arena)"

text \<open>
  A rocket inside a hole's circle and moving away from the hole: the centres are 10 apart,
  the radii add up to 26.
\<close>

definition escape :: engine where
  "escape = place HOLE 110 300 0 0 (placeRocket 100 300 (- 1) 0 arena)"

text \<open>Two small balls with the same centre.\<close>

definition twins :: engine where
  "twins = place BALL_SMALL 100 100 (- 1) 0 (place BALL_SMALL 100 100 1 0 arena)"

text \<open>A small ball at the left edge, a large ball at the right edge, a hole at the left edge.\<close>

definition edgeCases :: engine where
  "edgeCases =
     place HOLE 5 300 0 0 (place BALL_LARGE 790 300 0 0 (place BALL_SMALL 5 300 (- 1) 0 arena))"

text \<open>A small ball with one hole at distance 100 and one at distance 10.\<close>

definition orbit :: engine where
  "orbit = place HOLE 110 100 0 0 (place HOLE 200 100 0 0 (place BALL_SMALL 100 100 0 0 arena))"

text \<open>A rocket in the middle of the screen at 10 units per tick.\<close>

definition speeding :: engine where
  "speeding = placeRocket 400 300 10 0 arena"

text \<open>
  The rocket has died and was dropped from \<open>this.objects\<close>, a ball is left, and this was
  the last life; then the same with two lives; then a level with its last ball gone.
\<close>

definition lastLife :: engine where
  "lastLife =
     updateObjects (mutate 0 (\<lambda>obj. obj\<lparr>live := False\<rparr>)
       ((place BALL_SMALL 100 100 0 0 (placeRocket 400 300 0 0 arena))
          \<lparr>gameState := Running, lives := 1\<rparr>))"

definition secondLife :: engine where
  "secondLife = lastLife\<lparr>lives := 2\<rparr>"

definition cleared :: engine where
  "cleared = (placeRocket 400 300 0 0 arena)\<lparr>gameState := Running, score := 40\<rparr>"

text \<open>No key is pressed.\<close>

definition idle :: "nat \<Rightarrow> controls" where
  "idle = (\<lambda>_. \<lparr>up = False, down = False, left = False, right = False, brake = False\<rparr>)"

text \<open>
  A running game at 495 points: a rocket in the middle of the screen and two large balls
  at rest, one at the left wall and one at the right wall.
\<close>

definition crossing :: engine where
  "crossing =
     (place BALL_LARGE 795 300 0 0 (place BALL_LARGE 5 300 0 0 (placeRocket 400 300 0 0 arena)))
       \<lparr>gameState := Running, score := 495\<rparr>"

text \<open>
  A running game whose ticks take a sixtieth of a time unit: a small ball of radius 8 at
  \<open>x = 7\<close> that moves to the right at 2 per tick, and a rocket at rest in the middle of the
  screen.
\<close>

definition drifting :: engine where
  "drifting =
     (placeRocket 400 300 0 0 (place BALL_SMALL 7 300 2 0 arena))
       \<lparr>gameState := Running, deltaTime := Fin (1 / 60)\<rparr>"

section \<open>Properties\<close>

subsection \<open>Arithmetic\<close>

lemma NaN_absorbs [simp]:
  "jadd a NaN = NaN" "jmul a NaN = NaN" "jdiv a NaN = NaN" "jless a NaN = False"
  by (cases a; simp)+

lemma sqrt_100: "sqrt 100 = 10"
  using real_sqrt_abs [of 10] by simp

lemma sqrt_10000: "sqrt 10000 = 100"
  using real_sqrt_abs [of 100] by simp

lemma sqrt_2401_25: "sqrt (2401 / 25) = 49 / 5"
  using real_sqrt_abs [of "49 / 5"] by (simp add: power2_eq_square)

text \<open>A vector scaled to the length \<open>g\<close> has the length \<open>g\<close>.\<close>

lemma unit_pull:
  assumes "d = sqrt (a * a + b * b)" "0 < d" "0 < g"
  shows "sqrt ((a / d * g) * (a / d * g) + (b / d * g) * (b / d * g)) = g"
proof -
  have dd: "d * d = a * a + b * b"
    using assms(1) by (simp add: power2_eq_square [symmetric])
  have "(a / d * g) * (a / d * g) + (b / d * g) * (b / d * g) = (a * a + b * b) / (d * d) * (g * g)"
    by (simp add: add_divide_distrib algebra_simps)
  also have "\<dots> = g * g"
    unfolding dd [symmetric] using assms(2) by simp
  finally show ?thesis
    using assms(3) by (simp add: power2_eq_square [symmetric])
qed

subsection \<open>What the basic operations leave alone\<close>

lemma emit_fields [simp]:
  "store (emit e s) = store s" "nextRef (emit e s) = nextRef s"
  "objects (emit e s) = objects s" "rockets (emit e s) = rockets s"
  "balls (emit e s) = balls s" "gameState (emit e s) = gameState s"
  "level (emit e s) = level s" "score (emit e s) = score s"
  "lives (emit e s) = lives s" "nextLifeAt (emit e s) = nextLifeAt s"
  "playerCount (emit e s) = playerCount s" "deltaTime (emit e s) = deltaTime s"
  "screenWidth (emit e s) = screenWidth s" "screenHeight (emit e s) = screenHeight s"
  "random (emit e s) = random s" "randomUsed (emit e s) = randomUsed s"
  "emitted (emit e s) = emitted s @ [e]"
  by (simp_all add: emit_def)

lemma playSound_fields [simp]:
  "store (playSound c s) = store s" "nextRef (playSound c s) = nextRef s"
  "objects (playSound c s) = objects s" "rockets (playSound c s) = rockets s"
  "balls (playSound c s) = balls s" "gameState (playSound c s) = gameState s"
  "level (playSound c s) = level s" "score (playSound c s) = score s"
  "lives (playSound c s) = lives s" "nextLifeAt (playSound c s) = nextLifeAt s"
  "playerCount (playSound c s) = playerCount s" "deltaTime (playSound c s) = deltaTime s"
  "screenWidth (playSound c s) = screenWidth s"
  "screenHeight (playSound c s) = screenHeight s"
  "random (playSound c s) = random s" "randomUsed (playSound c s) = randomUsed s"
  "emitted (playSound c s) = emitted s @ [PlaySound c]"
  by (simp_all add: playSound_def)

lemma mutate_fields [simp]:
  "store (mutate r f s) = (store s)(r := f (store s r))"
  "nextRef (mutate r f s) = nextRef s"
  "objects (mutate r f s) = objects s" "rockets (mutate r f s) = rockets s"
  "balls (mutate r f s) = balls s" "gameState (mutate r f s) = gameState s"
  "level (mutate r f s) = level s" "score (mutate r f s) = score s"
  "lives (mutate r f s) = lives s" "nextLifeAt (mutate r f s) = nextLifeAt s"
  "playerCount (mutate r f s) = playerCount s" "deltaTime (mutate r f s) = deltaTime s"
  "screenWidth (mutate r f s) = screenWidth s" "screenHeight (mutate r f s) = screenHeight s"
  "random (mutate r f s) = random s" "randomUsed (mutate r f s) = randomUsed s"
  "emitted (mutate r f s) = emitted s"
  by (simp_all add: mutate_def)

lemma checkExtraLife_fields [simp]:
  "store (checkExtraLife s) = store s" "nextRef (checkExtraLife s) = nextRef s"
  "objects (checkExtraLife s) = objects s" "rockets (checkExtraLife s) = rockets s"
  "balls (checkExtraLife s) = balls s" "gameState (checkExtraLife s) = gameState s"
  "level (checkExtraLife s) = level s" "score (checkExtraLife s) = score s"
  "playerCount (checkExtraLife s) = playerCount s"
  "deltaTime (checkExtraLife s) = deltaTime s"
  "screenWidth (checkExtraLife s) = screenWidth s"
  "screenHeight (checkExtraLife s) = screenHeight s"
  "random (checkExtraLife s) = random s" "randomUsed (checkExtraLife s) = randomUsed s"
  by (simp_all add: checkExtraLife_def Let_def)

subsection \<open>The extra-life check\<close>

lemma checkExtraLife_lives:
  "lives (checkExtraLife s) = (if score s \<ge> nextLifeAt s then lives s + 1 else lives s)"
  by (simp add: checkExtraLife_def Let_def emit_def playSound_def)

lemma checkExtraLife_nextLifeAt:
  "nextLifeAt (checkExtraLife s) =
     (if score s \<ge> nextLifeAt s then nextLifeAt s + 500 else nextLifeAt s)"
  by (simp add: checkExtraLife_def Let_def emit_def playSound_def)

lemma checkExtraLife_extraLives:
  "extraLives (checkExtraLife s) =
     (if score s \<ge> nextLifeAt s then extraLives s + 1 else extraLives s)"
  by (simp add: checkExtraLife_def Let_def emit_def playSound_def extraLives_def)

text \<open>
  C10. One call of \<open>checkExtraLife\<close> grants at most one life. When the score has reached
  the threshold, however far beyond it (also by more than 500), \<open>lives\<close> grows by exactly 1,
  \<open>nextLifeAt\<close> by exactly 500 and one \<open>extraLife\<close> event is sent; below the threshold
  nothing changes.
\<close>

theorem checkExtraLife_single_grant:
  "lives (checkExtraLife s) \<le> lives s + 1 \<and>
   (score s \<ge> nextLifeAt s \<longrightarrow>
      lives (checkExtraLife s) = lives s + 1 \<and>
      nextLifeAt (checkExtraLife s) = nextLifeAt s + 500 \<and>
      extraLives (checkExtraLife s) = extraLives s + 1) \<and>
   (score s < nextLifeAt s \<longrightarrow>
      lives (checkExtraLife s) = lives s \<and>
      nextLifeAt (checkExtraLife s) = nextLifeAt s \<and>
      extraLives (checkExtraLife s) = extraLives s)"
  by (simp add: checkExtraLife_lives checkExtraLife_nextLifeAt checkExtraLife_extraLives)

theorem checkExtraLife_single_grant_witness:
  "nextLifeAt (arena\<lparr>score := 1700\<rparr>) \<le> score (arena\<lparr>score := 1700\<rparr>) \<and>
   lives (checkExtraLife (arena\<lparr>score := 1700\<rparr>)) = 4 \<and>
   nextLifeAt (checkExtraLife (arena\<lparr>score := 1700\<rparr>)) = 1000 \<and>
   extraLives (checkExtraLife (arena\<lparr>score := 1700\<rparr>)) = 1 \<and>
   score (arena\<lparr>score := 499\<rparr>) < nextLifeAt (arena\<lparr>score := 499\<rparr>) \<and>
   lives (checkExtraLife (arena\<lparr>score := 499\<rparr>)) = 3 \<and>
   nextLifeAt (checkExtraLife (arena\<lparr>score := 499\<rparr>)) = 500 \<and>
   extraLives (checkExtraLife (arena\<lparr>score := 499\<rparr>)) = 0"
  using checkExtraLife_single_grant [of "arena\<lparr>score := 1700\<rparr>"]
    checkExtraLife_single_grant [of "arena\<lparr>score := 499\<rparr>"]
  by (simp add: arena_def newEngine_def extraLives_def)

lemmas fixture_defs =
  place_def placeRocket_def createGameObject_def arena_def newEngine_def orZero_def Let_def

subsection \<open>The elastic impulse\<close>

lemma handleSpecialCollisions_motion [simp]:
  "vx (store (handleSpecialCollisions r1 r2 s) r) = vx (store s r)"
  "vy (store (handleSpecialCollisions r1 r2 s) r) = vy (store s r)"
  "mass (store (handleSpecialCollisions r1 r2 s) r) = mass (store s r)"
  "xpos (store (handleSpecialCollisions r1 r2 s) r) = xpos (store s r)"
  "ypos (store (handleSpecialCollisions r1 r2 s) r) = ypos (store s r)"
  "otype (store (handleSpecialCollisions r1 r2 s) r) = otype (store s r)"
  by (simp_all add: handleSpecialCollisions_def Let_def)

lemma separateObjects_motion [simp]:
  "vx (store (separateObjects r1 r2 nx ny ov s) r) = vx (store s r)"
  "vy (store (separateObjects r1 r2 nx ny ov s) r) = vy (store s r)"
  "mass (store (separateObjects r1 r2 nx ny ov s) r) = mass (store s r)"
  "otype (store (separateObjects r1 r2 nx ny ov s) r) = otype (store s r)"
  "live (store (separateObjects r1 r2 nx ny ov s) r) = live (store s r)"
  "emitted (separateObjects r1 r2 nx ny ov s) = emitted s"
  "score (separateObjects r1 r2 nx ny ov s) = score s"
  by (simp_all add: separateObjects_def Let_def)

lemma applyImpulse_keeps [simp]:
  "mass (store (applyImpulse r1 r2 nx ny i s) r) = mass (store s r)"
  "xpos (store (applyImpulse r1 r2 nx ny i s) r) = xpos (store s r)"
  "ypos (store (applyImpulse r1 r2 nx ny i s) r) = ypos (store s r)"
  "otype (store (applyImpulse r1 r2 nx ny i s) r) = otype (store s r)"
  "live (store (applyImpulse r1 r2 nx ny i s) r) = live (store s r)"
  "emitted (applyImpulse r1 r2 nx ny i s) = emitted s"
  "score (applyImpulse r1 r2 nx ny i s) = score s"
  by (simp_all add: applyImpulse_def Let_def)

lemma applyImpulse_velocity:
  assumes "r1 \<noteq> r2"
  shows "vx (store (applyImpulse r1 r2 nx ny i s) r1) = vx (store s r1) + i * mass (store s r2) * nx"
    and "vy (store (applyImpulse r1 r2 nx ny i s) r1) = vy (store s r1) + i * mass (store s r2) * ny"
    and "vx (store (applyImpulse r1 r2 nx ny i s) r2) = vx (store s r2) - i * mass (store s r1) * nx"
    and "vy (store (applyImpulse r1 r2 nx ny i s) r2) = vy (store s r2) - i * mass (store s r1) * ny"
  using assms by (simp_all add: applyImpulse_def Let_def)

lemma impulse_exchange:
  "m1 * (u1 + i * m2 * n) + m2 * (u2 - i * m1 * n) = m1 * u1 + m2 * (u2::real)"
  by (simp add: algebra_simps)

lemma applyImpulse_momentumX:
  assumes "r1 \<noteq> r2"
    and "vx (store s r1) = Fin u1" "vx (store s r2) = Fin u2"
    and "mass (store s r1) = Fin m1" "mass (store s r2) = Fin m2"
  shows "momentumX r1 r2 (applyImpulse r1 r2 (Fin nx) (Fin ny) (Fin i) s) = momentumX r1 r2 s"
  using assms
  by (simp add: momentumX_def applyImpulse_velocity impulse_exchange del: mutate_fields)

lemma applyImpulse_momentumY:
  assumes "r1 \<noteq> r2"
    and "vy (store s r1) = Fin w1" "vy (store s r2) = Fin w2"
    and "mass (store s r1) = Fin m1" "mass (store s r2) = Fin m2"
  shows "momentumY r1 r2 (applyImpulse r1 r2 (Fin nx) (Fin ny) (Fin i) s) = momentumY r1 r2 s"
  using assms
  by (simp add: momentumY_def applyImpulse_velocity impulse_exchange del: mutate_fields)

text \<open>
  \<open>handleCollision\<close> on finite numbers, with the quotients named: \<open>nx\<close> and \<open>ny\<close> the
  normal, \<open>dvn\<close> the relative velocity along it, \<open>2 * dvn / (m1 + m2)\<close> the impulse.
\<close>

lemma handleCollision_finite:
  assumes "vx (store s r1) = Fin u1" "vy (store s r1) = Fin w1"
    and "vx (store s r2) = Fin u2" "vy (store s r2) = Fin w2"
    and "mass (store s r1) = Fin m1" "mass (store s r2) = Fin m2"
    and "m1 + m2 \<noteq> 0" "d \<noteq> 0"
    and "dvn = (u2 - u1) * (dx / d) + (w2 - w1) * (dy / d)"
    and "s1 = separateObjects r1 r2 (Fin (dx / d)) (Fin (dy / d))
                ((radius (store s r1) + radius (store s r2) - Fin d) / Fin 2) s"
  shows "handleCollision r1 r2 (Fin dx) (Fin dy) (Fin d) s =
           (if 0 < dvn then s1
            else playSound collision (handleSpecialCollisions r1 r2
                   (applyImpulse r1 r2 (Fin (dx / d)) (Fin (dy / d))
                      (Fin (2 * dvn / (m1 + m2))) s1)))"
proof -
  have n: "Fin dx / Fin d = Fin (dx / d)" "Fin dy / Fin d = Fin (dy / d)"
    using assms(8) by simp_all
  have v: "vx (store s1 r1) = Fin u1" "vx (store s1 r2) = Fin u2"
    "vy (store s1 r1) = Fin w1" "vy (store s1 r2) = Fin w2"
    "mass (store s1 r1) = Fin m1" "mass (store s1 r2) = Fin m2"
    using assms(1-6) by (simp_all add: assms(10))
  have i: "(Fin 2 * ((vx (store s1 r2) - vx (store s1 r1)) * Fin (dx / d) +
             (vy (store s1 r2) - vy (store s1 r1)) * Fin (dy / d))) /
           (mass (store s1 r1) + mass (store s1 r2)) = Fin (2 * dvn / (m1 + m2))"
    using assms(7) by (simp add: v assms(9))
  show ?thesis
    unfolding handleCollision_def Let_def n assms(10)[symmetric] i
    by (simp add: v assms(9))
qed

text \<open>
  C9. A collision of two distinct objects with finite velocities and masses (the masses
  not adding up to zero), handed a finite normal of non-zero length: the total momentum,
  mass times velocity summed over both objects, is the same before and after
  \<open>handleCollision\<close>, in \<open>x\<close> and in \<open>y\<close>, and it is a finite number.
\<close>

theorem handleCollision_conserves_momentum:
  assumes "r1 \<noteq> r2"
    and "vx (store s r1) = Fin u1" "vy (store s r1) = Fin w1"
    and "vx (store s r2) = Fin u2" "vy (store s r2) = Fin w2"
    and "mass (store s r1) = Fin m1" "mass (store s r2) = Fin m2"
    and "m1 + m2 \<noteq> 0" "d \<noteq> 0"
  shows "momentumX r1 r2 (handleCollision r1 r2 (Fin dx) (Fin dy) (Fin d) s) = momentumX r1 r2 s \<and>
         momentumY r1 r2 (handleCollision r1 r2 (Fin dx) (Fin dy) (Fin d) s) = momentumY r1 r2 s \<and>
         isFinite (momentumX r1 r2 s) \<and> isFinite (momentumY r1 r2 s)"
proof -
  define dvn where "dvn = (u2 - u1) * (dx / d) + (w2 - w1) * (dy / d)"
  define s1 where "s1 = separateObjects r1 r2 (Fin (dx / d)) (Fin (dy / d))
                ((radius (store s r1) + radius (store s r2) - Fin d) / Fin 2) s"
  note hc = handleCollision_finite [OF assms(2-9) dvn_def s1_def]
  have v: "vx (store s1 r1) = Fin u1" "vx (store s1 r2) = Fin u2"
    "vy (store s1 r1) = Fin w1" "vy (store s1 r2) = Fin w2"
    "mass (store s1 r1) = Fin m1" "mass (store s1 r2) = Fin m2"
    using assms(2-7) by (simp_all add: s1_def)
  have sx: "momentumX r1 r2 s1 = momentumX r1 r2 s"
    and sy: "momentumY r1 r2 s1 = momentumY r1 r2 s"
    by (simp_all add: momentumX_def momentumY_def s1_def)
  have ix: "momentumX r1 r2 (applyImpulse r1 r2 (Fin (dx / d)) (Fin (dy / d))
              (Fin (2 * dvn / (m1 + m2))) s1) = momentumX r1 r2 s1"
    using assms(1) v(1,2,5,6) by (rule applyImpulse_momentumX)
  have iy: "momentumY r1 r2 (applyImpulse r1 r2 (Fin (dx / d)) (Fin (dy / d))
              (Fin (2 * dvn / (m1 + m2))) s1) = momentumY r1 r2 s1"
    using assms(1) v(3,4,5,6) by (rule applyImpulse_momentumY)
  have x: "momentumX r1 r2 (handleCollision r1 r2 (Fin dx) (Fin dy) (Fin d) s) = momentumX r1 r2 s"
    unfolding hc using ix sx by (simp add: momentumX_def)
  have y: "momentumY r1 r2 (handleCollision r1 r2 (Fin dx) (Fin dy) (Fin d) s) = momentumY r1 r2 s"
    unfolding hc using iy sy by (simp add: momentumY_def)
  have f: "isFinite (momentumX r1 r2 s)" "isFinite (momentumY r1 r2 s)"
    using assms(2-7) by (simp_all add: momentumX_def momentumY_def)
  from x y f show ?thesis by simp
qed

theorem handleCollision_conserves_momentum_witness:
  "(0::nat) \<noteq> 1 \<and> vx (store duel 0) = Fin 2 \<and> vx (store duel 1) = Fin (- 2) \<and>
   mass (store duel 0) = Fin 3 \<and> mass (store duel 1) = Fin 6 \<and>
   momentumX 0 1 (handleCollision 0 1 (Fin 10) (Fin 0) (Fin 10) duel) = Fin (- 6) \<and>
   momentumY 0 1 (handleCollision 0 1 (Fin 10) (Fin 0) (Fin 10) duel) = Fin 0"
  using handleCollision_conserves_momentum
          [of 0 1 duel 2 0 "- 2" 0 3 6 10 10 0]
  by (simp add: duel_def fixture_defs momentumX_def momentumY_def)

subsection \<open>Collisions of a pair\<close>

lemma checkCollisions_two:
  "objects s = [a, b] \<Longrightarrow> checkCollisions s = checkPair a b s"
  by (simp add: checkCollisions_def Let_def upt_rec)

lemma separateObjects_position:
  assumes "r1 \<noteq> r2"
  shows "xpos (store (separateObjects r1 r2 nx ny ov s) r1) = xpos (store s r1) - nx * ov"
    and "ypos (store (separateObjects r1 r2 nx ny ov s) r1) = ypos (store s r1) - ny * ov"
    and "xpos (store (separateObjects r1 r2 nx ny ov s) r2) = xpos (store s r2) + nx * ov"
    and "ypos (store (separateObjects r1 r2 nx ny ov s) r2) = ypos (store s r2) + ny * ov"
  using assms by (simp_all add: separateObjects_def Let_def)

text \<open>
  With the objects already moving apart along the normal, \<open>handleCollision\<close> returns after
  the separation: no object dies, nothing is scored, nothing is sent.
\<close>

lemma handleCollision_separating:
  assumes "vx (store s r1) = Fin u1" "vy (store s r1) = Fin w1"
    and "vx (store s r2) = Fin u2" "vy (store s r2) = Fin w2"
    and "mass (store s r1) = Fin m1" "mass (store s r2) = Fin m2"
    and "m1 + m2 \<noteq> 0" "d \<noteq> 0"
    and "0 < (u2 - u1) * (dx / d) + (w2 - w1) * (dy / d)"
  shows "live (store (handleCollision r1 r2 (Fin dx) (Fin dy) (Fin d) s) r) = live (store s r)"
    and "emitted (handleCollision r1 r2 (Fin dx) (Fin dy) (Fin d) s) = emitted s"
    and "score (handleCollision r1 r2 (Fin dx) (Fin dy) (Fin d) s) = score s"
  using assms(9) by (simp_all add: handleCollision_finite [OF assms(1-8) refl refl])

lemma escape_fields:
  "objects escape = [0, Suc 0]" "rockets escape = [0]" "emitted escape = []"
  "store escape 0 =
     \<lparr>otype = ROCKET, xpos = Fin 100, ypos = Fin 300, vx = Fin (- 1), vy = Fin 0,
      fx = Fin 0, fy = Fin 0, radius = Fin 14, mass = Fin 4, live = True, playerId = - 1\<rparr>"
  "store escape (Suc 0) =
     \<lparr>otype = HOLE, xpos = Fin 110, ypos = Fin 300, vx = Fin 0, vy = Fin 0,
      fx = Fin 0, fy = Fin 0, radius = Fin 12, mass = Fin 1, live = True, playerId = - 1\<rparr>"
  by (simp_all add: escape_def fixture_defs)

text \<open>
  C1, at a rocket and a hole whose circles overlap while the rocket moves away. The pair
  is detected by \<open>checkCollisions\<close> (both alive, distance 10 below the radii's sum 26),
  and after it the rocket is still alive and no sound was played: the early return of
  \<open>handleCollision\<close> for separating velocities comes before \<open>handleSpecialCollisions\<close>.
\<close>

theorem rocket_in_hole_survives_when_separating:
  "otype (store escape 0) = ROCKET \<and> otype (store escape 1) = HOLE \<and>
   live (store escape 0) \<and> live (store escape 1) \<and>
   jsqrt ((xpos (store escape 1) - xpos (store escape 0)) *
          (xpos (store escape 1) - xpos (store escape 0)) +
          (ypos (store escape 1) - ypos (store escape 0)) *
          (ypos (store escape 1) - ypos (store escape 0)))
     < radius (store escape 0) + radius (store escape 1) \<and>
   live (store (checkCollisions escape) 0) \<and>
   emitted (checkCollisions escape) = []"
  by (simp add: checkCollisions_two [OF escape_fields(1)] checkPair_def handleCollision_def
        Let_def escape_fields sqrt_100)

text \<open>
  A distance of zero makes the normal \<open>0 / 0\<close>, which is NaN, and NaN goes into the
  positions and the velocities of both objects.
\<close>

lemma handleCollision_zero_distance:
  assumes "r1 \<noteq> r2" and "s' = handleCollision r1 r2 (Fin 0) (Fin 0) (Fin 0) s"
  shows "xpos (store s' r1) = NaN" "ypos (store s' r1) = NaN"
    "xpos (store s' r2) = NaN" "ypos (store s' r2) = NaN"
    "vx (store s' r1) = NaN" "vy (store s' r1) = NaN"
    "vx (store s' r2) = NaN" "vy (store s' r2) = NaN"
  using assms(1)
  by (simp_all add: assms(2) handleCollision_def Let_def separateObjects_position
        applyImpulse_velocity del: mutate_fields)

lemma checkPair_coincident:
  assumes "live (store s r1)" "live (store s r2)"
    and "xpos (store s r1) = Fin a" "xpos (store s r2) = Fin a"
    and "ypos (store s r1) = Fin b" "ypos (store s r2) = Fin b"
    and "radius (store s r1) = Fin c1" "radius (store s r2) = Fin c2" "0 < c1 + c2"
  shows "checkPair r1 r2 s = handleCollision r1 r2 (Fin 0) (Fin 0) (Fin 0) s"
  using assms by (simp add: checkPair_def Let_def)

lemma twins_fields:
  "objects twins = [0, Suc 0]"
  "store twins 0 =
     \<lparr>otype = BALL_SMALL, xpos = Fin 100, ypos = Fin 100, vx = Fin 1, vy = Fin 0,
      fx = Fin 0, fy = Fin 0, radius = Fin 8, mass = Fin 3, live = True, playerId = - 1\<rparr>"
  "store twins (Suc 0) =
     \<lparr>otype = BALL_SMALL, xpos = Fin 100, ypos = Fin 100, vx = Fin (- 1), vy = Fin 0,
      fx = Fin 0, fy = Fin 0, radius = Fin 8, mass = Fin 3, live = True, playerId = - 1\<rparr>"
  by (simp_all add: twins_def fixture_defs)

text \<open>
  C7, at two alive small balls with the same centre. \<open>checkCollisions\<close> does not skip the
  pair: it calls \<open>handleCollision\<close> with distance zero, and afterwards the position and
  the velocity of both balls are NaN.
\<close>

theorem coincident_centres_give_NaN:
  "live (store twins 0) \<and> live (store twins 1) \<and>
   xpos (store twins 0) = xpos (store twins 1) \<and> ypos (store twins 0) = ypos (store twins 1) \<and>
   isFinite (xpos (store twins 0)) \<and> isFinite (vx (store twins 0)) \<and>
   xpos (store (checkCollisions twins) 0) = NaN \<and> ypos (store (checkCollisions twins) 0) = NaN \<and>
   vx (store (checkCollisions twins) 0) = NaN \<and> vy (store (checkCollisions twins) 0) = NaN \<and>
   xpos (store (checkCollisions twins) 1) = NaN \<and> ypos (store (checkCollisions twins) 1) = NaN \<and>
   vx (store (checkCollisions twins) 1) = NaN \<and> vy (store (checkCollisions twins) 1) = NaN"
proof -
  have p: "checkCollisions twins = handleCollision 0 (Suc 0) (Fin 0) (Fin 0) (Fin 0) twins"
    unfolding checkCollisions_two [OF twins_fields(1)]
    by (rule checkPair_coincident [where a = 100 and b = 100 and ?c1.0 = 8 and ?c2.0 = 8])
       (simp_all add: twins_fields)
  have n: "(0::nat) \<noteq> Suc 0" by simp
  show ?thesis
    using handleCollision_zero_distance [OF n p] by (simp add: twins_fields)
qed

subsection \<open>Gravity\<close>

lemma gravityFrom_keeps:
  "xpos (store (gravityFrom r h s) q) = xpos (store s q)"
  "ypos (store (gravityFrom r h s) q) = ypos (store s q)"
  "vx (store (gravityFrom r h s) q) = vx (store s q)"
  "vy (store (gravityFrom r h s) q) = vy (store s q)"
  "mass (store (gravityFrom r h s) q) = mass (store s q)"
  "radius (store (gravityFrom r h s) q) = radius (store s q)"
  "otype (store (gravityFrom r h s) q) = otype (store s q)"
  "live (store (gravityFrom r h s) q) = live (store s q)"
  "deltaTime (gravityFrom r h s) = deltaTime s"
  "screenWidth (gravityFrom r h s) = screenWidth s"
  "screenHeight (gravityFrom r h s) = screenHeight s"
  "objects (gravityFrom r h s) = objects s"
  "rockets (gravityFrom r h s) = rockets s"
  "score (gravityFrom r h s) = score s"
  "lives (gravityFrom r h s) = lives s"
  "nextLifeAt (gravityFrom r h s) = nextLifeAt s"
  "level (gravityFrom r h s) = level s"
  "gameState (gravityFrom r h s) = gameState s"
  "emitted (gravityFrom r h s) = emitted s"
  "playerCount (gravityFrom r h s) = playerCount s"
  by (simp_all add: gravityFrom_def Let_def)

lemma fold_gravityFrom_keeps:
  "xpos (store (fold (gravityFrom r) hs s) q) = xpos (store s q)"
  "ypos (store (fold (gravityFrom r) hs s) q) = ypos (store s q)"
  "vx (store (fold (gravityFrom r) hs s) q) = vx (store s q)"
  "vy (store (fold (gravityFrom r) hs s) q) = vy (store s q)"
  "mass (store (fold (gravityFrom r) hs s) q) = mass (store s q)"
  "radius (store (fold (gravityFrom r) hs s) q) = radius (store s q)"
  "otype (store (fold (gravityFrom r) hs s) q) = otype (store s q)"
  "live (store (fold (gravityFrom r) hs s) q) = live (store s q)"
  "deltaTime (fold (gravityFrom r) hs s) = deltaTime s"
  "screenWidth (fold (gravityFrom r) hs s) = screenWidth s"
  "screenHeight (fold (gravityFrom r) hs s) = screenHeight s"
  "objects (fold (gravityFrom r) hs s) = objects s"
  "rockets (fold (gravityFrom r) hs s) = rockets s"
  "score (fold (gravityFrom r) hs s) = score s"
  "lives (fold (gravityFrom r) hs s) = lives s"
  "nextLifeAt (fold (gravityFrom r) hs s) = nextLifeAt s"
  "level (fold (gravityFrom r) hs s) = level s"
  "gameState (fold (gravityFrom r) hs s) = gameState s"
  "emitted (fold (gravityFrom r) hs s) = emitted s"
  "playerCount (fold (gravityFrom r) hs s) = playerCount s"
  by (induction hs arbitrary: s; simp add: gravityFrom_keeps)+

lemma applyGravity_keeps [simp]:
  "xpos (store (applyGravity r s) q) = xpos (store s q)"
  "ypos (store (applyGravity r s) q) = ypos (store s q)"
  "vx (store (applyGravity r s) q) = vx (store s q)"
  "vy (store (applyGravity r s) q) = vy (store s q)"
  "mass (store (applyGravity r s) q) = mass (store s q)"
  "radius (store (applyGravity r s) q) = radius (store s q)"
  "otype (store (applyGravity r s) q) = otype (store s q)"
  "live (store (applyGravity r s) q) = live (store s q)"
  "deltaTime (applyGravity r s) = deltaTime s"
  "screenWidth (applyGravity r s) = screenWidth s"
  "screenHeight (applyGravity r s) = screenHeight s"
  "objects (applyGravity r s) = objects s"
  "rockets (applyGravity r s) = rockets s"
  "score (applyGravity r s) = score s"
  "lives (applyGravity r s) = lives s"
  "nextLifeAt (applyGravity r s) = nextLifeAt s"
  "level (applyGravity r s) = level s"
  "gameState (applyGravity r s) = gameState s"
  "emitted (applyGravity r s) = emitted s"
  "playerCount (applyGravity r s) = playerCount s"
  by (simp_all add: applyGravity_def fold_gravityFrom_keeps)

lemma applyGravity_hole: "otype (store s r) = HOLE \<Longrightarrow> applyGravity r s = s"
  by (simp add: applyGravity_def)

lemma applyGravity_other:
  "otype (store s r) \<noteq> HOLE \<Longrightarrow> applyGravity r s = fold (gravityFrom r) (objects s) s"
  by (simp add: applyGravity_def)

lemma orbit_fields:
  "store orbit 0 =
     \<lparr>otype = BALL_SMALL, xpos = Fin 100, ypos = Fin 100, vx = Fin 0, vy = Fin 0,
      fx = Fin 0, fy = Fin 0, radius = Fin 8, mass = Fin 3, live = True, playerId = - 1\<rparr>"
  "store orbit (Suc 0) =
     \<lparr>otype = HOLE, xpos = Fin 200, ypos = Fin 100, vx = Fin 0, vy = Fin 0,
      fx = Fin 0, fy = Fin 0, radius = Fin 12, mass = Fin 1, live = True, playerId = - 1\<rparr>"
  "store orbit 2 =
     \<lparr>otype = HOLE, xpos = Fin 110, ypos = Fin 100, vx = Fin 0, vy = Fin 0,
      fx = Fin 0, fy = Fin 0, radius = Fin 12, mass = Fin 1, live = True, playerId = - 1\<rparr>"
  by (simp_all add: orbit_def fixture_defs)

subsection \<open>The cap on the speed\<close>

lemma keepInBounds_motion [simp]:
  "xpos (store (keepInBounds r s) q) = xpos (store s q)"
  "ypos (store (keepInBounds r s) q) = ypos (store s q)"
  "vx (store (keepInBounds r s) q) = vx (store s q)"
  "vy (store (keepInBounds r s) q) = vy (store s q)"
  "otype (store (keepInBounds r s) q) = otype (store s q)"
  by (simp_all add: keepInBounds_def Let_def)

lemma object_steps [simp]:
  "otype (applyForces dt obj) = otype obj" "xpos (applyForces dt obj) = xpos obj"
  "ypos (applyForces dt obj) = ypos obj"
  "otype (applyFriction obj) = otype obj" "xpos (applyFriction obj) = xpos obj"
  "ypos (applyFriction obj) = ypos obj"
  "otype (capVelocity obj) = otype obj" "xpos (capVelocity obj) = xpos obj"
  "ypos (capVelocity obj) = ypos obj"
  "otype (updatePosition obj) = otype obj" "vx (updatePosition obj) = vx obj"
  "vy (updatePosition obj) = vy obj"
  "xpos (updatePosition obj) = xpos obj + vx obj" "ypos (updatePosition obj) = ypos obj + vy obj"
  by (simp_all add: applyForces_def applyFriction_def capVelocity_def updatePosition_def Let_def)

lemma maxVel_positive: "maxVel k = Fin 8 \<or> maxVel k = Fin 6"
  by (simp add: maxVel_def)

lemma capVelocity_bound:
  assumes "isFinite (vx (capVelocity obj))" "isFinite (vy (capVelocity obj))"
  shows "speed (capVelocity obj) \<le> maxVel (otype obj)"
proof (cases "vx obj")
  case (Fin u)
  show ?thesis
  proof (cases "vy obj")
    case (Fin w)
    define v where "v = sqrt (u * u + w * w)"
    have nn: "\<not> u * u + w * w < 0" by (simp add: not_less)
    obtain m where m: "maxVel (otype obj) = Fin m" "0 < m"
      using maxVel_positive [of "otype obj"] by auto
    show ?thesis
    proof (cases "m < v")
      case True
      then have v0: "0 < v" "v \<noteq> 0" using m(2) by simp_all
      have "sqrt ((u / v * m) * (u / v * m) + (w / v * m) * (w / v * m)) = m"
        using v_def v0(1) m(2) by (rule unit_pull)
      with True v0 nn show ?thesis
        using \<open>vx obj = Fin u\<close> \<open>vy obj = Fin w\<close> m
        by (simp add: capVelocity_def speed_def Let_def v_def [symmetric] not_less)
    next
      case False
      with nn show ?thesis
        using \<open>vx obj = Fin u\<close> \<open>vy obj = Fin w\<close> m
        by (auto simp add: capVelocity_def speed_def Let_def v_def [symmetric])
    qed
  next
    case PInf
    with Fin assms show ?thesis
      using maxVel_positive [of "otype obj"] by (auto simp add: capVelocity_def Let_def)
  next
    case NInf
    with Fin assms show ?thesis
      using maxVel_positive [of "otype obj"] by (auto simp add: capVelocity_def Let_def)
  next
    case NaN
    with Fin assms show ?thesis by (simp add: capVelocity_def Let_def)
  qed
next
  case PInf
  with assms show ?thesis
    using maxVel_positive [of "otype obj"] by (cases "vy obj") (auto simp add: capVelocity_def Let_def)
next
  case NInf
  with assms show ?thesis
    using maxVel_positive [of "otype obj"] by (cases "vy obj") (auto simp add: capVelocity_def Let_def)
next
  case NaN
  with assms show ?thesis by (simp add: capVelocity_def Let_def)
qed


text \<open>
  C2, amended. \<open>updatePhysics\<close> of the engine with the deadly walls enforces the cap, for
  every alive object: the velocity it leaves is the velocity after forces and friction put
  through \<open>capVelocity\<close>, that velocity is what was added to the position, and when it is
  finite its length is at most \<open>maxVel\<close> of the kind, 8 for a rocket and 6 otherwise.
\<close>

theorem updateObject_caps_speed:
  assumes "live (store s r)"
  shows "vx (store (updateObject r s) r) =
           vx (capVelocity (applyFriction (applyForces (deltaTime s) (store (applyGravity r s) r)))) \<and>
         vy (store (updateObject r s) r) =
           vy (capVelocity (applyFriction (applyForces (deltaTime s) (store (applyGravity r s) r)))) \<and>
         xpos (store (updateObject r s) r) = xpos (store s r) + vx (store (updateObject r s) r) \<and>
         ypos (store (updateObject r s) r) = ypos (store s r) + vy (store (updateObject r s) r) \<and>
         (isFinite (vx (store (updateObject r s) r)) \<and> isFinite (vy (store (updateObject r s) r)) \<longrightarrow>
            speed (store (updateObject r s) r) \<le> maxVel (otype (store s r)))"
proof -
  define w where "w = applyFriction (applyForces (deltaTime s) (store (applyGravity r s) r))"
  have v: "vx (store (updateObject r s) r) = vx (capVelocity w)"
    "vy (store (updateObject r s) r) = vy (capVelocity w)"
    using assms by (simp_all add: updateObject_def Let_def w_def)
  have p: "xpos (store (updateObject r s) r) = xpos (store s r) + vx (store (updateObject r s) r)"
    "ypos (store (updateObject r s) r) = ypos (store s r) + vy (store (updateObject r s) r)"
    unfolding v using assms by (simp_all add: updateObject_def Let_def w_def)
  have t: "otype w = otype (store s r)" by (simp add: w_def)
  have sp: "speed (store (updateObject r s) r) = speed (capVelocity w)"
    by (simp add: speed_def v)
  have "isFinite (vx (capVelocity w)) \<and> isFinite (vy (capVelocity w)) \<longrightarrow>
          speed (capVelocity w) \<le> maxVel (otype (store s r))"
    using capVelocity_bound [of w] by (simp only: t) blast
  then show ?thesis
    using v p unfolding sp w_def by simp
qed

lemma speeding_fields:
  "objects speeding = [0]" "deltaTime speeding = Fin 0"
  "screenWidth speeding = Fin 800" "screenHeight speeding = Fin 600"
  "store speeding 0 =
     \<lparr>otype = ROCKET, xpos = Fin 400, ypos = Fin 300, vx = Fin 10, vy = Fin 0,
      fx = Fin 0, fy = Fin 0, radius = Fin 14, mass = Fin 4, live = True, playerId = - 1\<rparr>"
  by (simp_all add: speeding_def fixture_defs)

lemma speeding_gravity: "applyGravity 0 speeding = speeding"
  by (simp add: applyGravity_def gravityFrom_def speeding_fields)

text \<open>
  C2 as stated fails: the engine with the deadly walls caps the speed. A rocket at 10
  units per tick has the velocity 9.8 after forces and friction, but it leaves
  \<open>updatePhysics\<close> at 8 and has moved by 8, not by 9.8.
\<close>

theorem speed_is_capped_counterexample:
  "live (store speeding 0) \<and>
   vx (applyFriction (applyForces (deltaTime speeding) (store (applyGravity 0 speeding) 0)))
     = Fin (49 / 5) \<and>
   vx (store (updateObject 0 speeding) 0) = Fin 8 \<and>
   xpos (store speeding 0) = Fin 400 \<and>
   xpos (store (updateObject 0 speeding) 0) = Fin 408"
  by (simp add: updateObject_def Let_def speeding_gravity speeding_fields applyForces_def
        applyFriction_def capVelocity_def updatePosition_def maxVel_def sqrt_2401_25)

theorem updateObject_caps_speed_witness:
  "live (store speeding 0) \<and>
   xpos (store (updateObject 0 speeding) 0) = Fin 408 \<and>
   isFinite (vx (store (updateObject 0 speeding) 0)) \<and>
   isFinite (vy (store (updateObject 0 speeding) 0)) \<and>
   speed (store (updateObject 0 speeding) 0) \<le> Fin 8"
  using updateObject_caps_speed [of speeding 0]
  by (simp add: speeding_gravity speeding_fields applyForces_def
        applyFriction_def capVelocity_def maxVel_def sqrt_2401_25 Let_def)

subsection \<open>Spawning a level\<close>

lemma sameScalars_refl [simp]: "sameScalars s s"
  by (simp add: sameScalars_def)

lemma sameScalars_trans: "sameScalars s t \<Longrightarrow> sameScalars t u \<Longrightarrow> sameScalars s u"
  by (simp add: sameScalars_def)

lemma createGameObject_result:
  "createGameObject c s = (nextRef s, snd (createGameObject c s))"
  by (simp add: createGameObject_def Let_def)

lemma createGameObject_fields:
  "sameScalars s (snd (createGameObject c s))"
  "objects (snd (createGameObject c s)) = objects s @ [nextRef s]"
  "rockets (snd (createGameObject c s)) = rockets s"
  "balls (snd (createGameObject c s)) = balls s"
  "nextRef (snd (createGameObject c s)) = Suc (nextRef s)"
  "live (store (snd (createGameObject c s)) (nextRef s))"
  "otype (store (snd (createGameObject c s)) (nextRef s)) = c_type c"
  "r \<noteq> nextRef s \<Longrightarrow> store (snd (createGameObject c s)) r = store s r"
  by (simp_all add: createGameObject_def Let_def sameScalars_def)

lemma mathRandom_fields:
  "sameScalars s (snd (mathRandom s))"
  "objects (snd (mathRandom s)) = objects s"
  "rockets (snd (mathRandom s)) = rockets s"
  "balls (snd (mathRandom s)) = balls s"
  "nextRef (snd (mathRandom s)) = nextRef s"
  "store (snd (mathRandom s)) = store s"
  by (simp_all add: mathRandom_def sameScalars_def)

lemma createGameObject_old:
  assumes "spawned s" "r \<in> set (objects s)"
  shows "store (snd (createGameObject c s)) r = store s r"
proof -
  from assms have "r < nextRef s" by (simp add: spawned_def)
  then show ?thesis by (simp add: createGameObject_fields)
qed

lemma spawned_createGameObject:
  assumes "spawned s"
  shows "spawned (snd (createGameObject c s))"
proof -
  have old: "\<And>r. r \<in> set (objects s) \<Longrightarrow> store (snd (createGameObject c s)) r = store s r"
    using assms by (rule createGameObject_old)
  show ?thesis
    using assms
    by (auto simp add: spawned_def createGameObject_fields less_Suc_eq old)
qed

lemma spawned_mathRandom: "spawned s \<Longrightarrow> spawned (snd (mathRandom s))"
  by (simp add: spawned_def mathRandom_fields)

lemma createBall_fields:
  "sameScalars s (createBall s)"
  "rockets (createBall s) = rockets s"
  "length (balls (createBall s)) = Suc (length (balls s))"
  "spawned s \<Longrightarrow> spawned (createBall s)"
proof -
  obtain r0 s0 where a0: "mathRandom s = (r0, s0)" by (cases "mathRandom s")
  obtain r1 s1 where a1: "mathRandom s0 = (r1, s1)" by (cases "mathRandom s0")
  obtain r2 s2 where a2: "mathRandom s1 = (r2, s2)" by (cases "mathRandom s1")
  obtain r3 s3 where a3: "mathRandom s2 = (r3, s3)" by (cases "mathRandom s2")
  obtain r4 s4 where a4: "mathRandom s3 = (r4, s4)" by (cases "mathRandom s3")
  define c where "c = \<lparr>c_type = (if r0 < Fin 0.25 then BALL_LARGE else BALL_SMALL),
              c_x = r1 * (screenWidth s4 - Fin 100) + Fin 50,
              c_y = r2 * (screenHeight s4 - Fin 100) + Fin 50,
              c_vx = Some ((r3 - Fin 0.5) * Fin 2),
              c_vy = Some ((r4 - Fin 0.5) * Fin 2),
              c_playerId = None\<rparr>"
  define s5 where "s5 = snd (createGameObject c s4)"
  have cb: "createBall s = s5\<lparr>balls := balls s5 @ [nextRef s4]\<rparr>"
    unfolding createBall_def a0 a1 a2 a3 a4 Let_def prod.case
    by (subst createGameObject_result) (simp add: s5_def c_def)
  have s0: "s0 = snd (mathRandom s)" and s1: "s1 = snd (mathRandom s0)"
    and s2: "s2 = snd (mathRandom s1)" and s3: "s3 = snd (mathRandom s2)"
    and s4: "s4 = snd (mathRandom s3)"
    by (simp_all add: a0 a1 a2 a3 a4)
  have sc: "sameScalars s s4"
    unfolding s4 s3 s2 s1 s0
    by (intro sameScalars_trans [OF _ mathRandom_fields(1)] mathRandom_fields(1))
  have "sameScalars s4 s5" by (simp add: s5_def createGameObject_fields)
  with sc have "sameScalars s s5" by (rule sameScalars_trans)
  then show "sameScalars s (createBall s)" by (simp add: cb sameScalars_def)
  have l: "rockets s4 = rockets s" "balls s4 = balls s" "objects s4 = objects s"
    "nextRef s4 = nextRef s" "store s4 = store s"
    by (simp_all add: s4 s3 s2 s1 s0 mathRandom_fields)
  show "rockets (createBall s) = rockets s"
    by (simp add: cb s5_def createGameObject_fields l)
  show "length (balls (createBall s)) = Suc (length (balls s))"
    by (simp add: cb s5_def createGameObject_fields l)
  show "spawned (createBall s)" if "spawned s"
  proof -
    from that have "spawned s4" by (simp add: spawned_def l)
    then have sp: "spawned s5" unfolding s5_def by (rule spawned_createGameObject)
    have new: "nextRef s4 \<in> set (objects s5)" "isBall (store s5 (nextRef s4))"
      by (simp_all add: s5_def createGameObject_fields c_def isBall_def)
    from sp new show ?thesis
      by (auto simp add: cb spawned_def)
  qed
qed


lemma createHole_fields:
  "sameScalars s (createHole s)"
  "rockets (createHole s) = rockets s"
  "balls (createHole s) = balls s"
  "spawned s \<Longrightarrow> spawned (createHole s)"
proof -
  obtain r1 s1 where a1: "mathRandom s = (r1, s1)" by (cases "mathRandom s")
  obtain r2 s2 where a2: "mathRandom s1 = (r2, s2)" by (cases "mathRandom s1")
  define c where "c = \<lparr>c_type = HOLE, c_x = r1 * screenWidth s2, c_y = r2 * screenHeight s2,
            c_vx = None, c_vy = None, c_playerId = None\<rparr>"
  have ch: "createHole s = snd (createGameObject c s2)"
    by (simp add: createHole_def a1 a2 c_def)
  have s1: "s1 = snd (mathRandom s)" and s2: "s2 = snd (mathRandom s1)"
    by (simp_all add: a1 a2)
  have sc: "sameScalars s s2"
    unfolding s2 s1 by (intro sameScalars_trans [OF _ mathRandom_fields(1)] mathRandom_fields(1))
  have l: "rockets s2 = rockets s" "balls s2 = balls s" "objects s2 = objects s"
    "nextRef s2 = nextRef s" "store s2 = store s"
    by (simp_all add: s2 s1 mathRandom_fields)
  show "sameScalars s (createHole s)"
    unfolding ch by (rule sameScalars_trans [OF sc createGameObject_fields(1)])
  show "rockets (createHole s) = rockets s" "balls (createHole s) = balls s"
    by (simp_all add: ch createGameObject_fields l)
  show "spawned (createHole s)" if "spawned s"
  proof -
    from that have "spawned s2" by (simp add: spawned_def l)
    then show ?thesis unfolding ch by (rule spawned_createGameObject)
  qed
qed

lemma createBigBall_fields:
  "sameScalars s (createBigBall s)"
  "rockets (createBigBall s) = rockets s"
  "balls (createBigBall s) = balls s"
  "spawned s \<Longrightarrow> spawned (createBigBall s)"
proof -
  obtain r1 s1 where a1: "mathRandom s = (r1, s1)" by (cases "mathRandom s")
  obtain r2 s2 where a2: "mathRandom s1 = (r2, s2)" by (cases "mathRandom s1")
  obtain r3 s3 where a3: "mathRandom s2 = (r3, s3)" by (cases "mathRandom s2")
  obtain r4 s4 where a4: "mathRandom s3 = (r4, s4)" by (cases "mathRandom s3")
  define c where "c = \<lparr>c_type = BBALL, c_x = r1 * screenWidth s4, c_y = r2 * screenHeight s4,
            c_vx = Some (r3 - Fin 0.5), c_vy = Some (r4 - Fin 0.5), c_playerId = None\<rparr>"
  have ch: "createBigBall s = snd (createGameObject c s4)"
    by (simp add: createBigBall_def a1 a2 a3 a4 c_def)
  have s1: "s1 = snd (mathRandom s)" and s2: "s2 = snd (mathRandom s1)"
    and s3: "s3 = snd (mathRandom s2)" and s4: "s4 = snd (mathRandom s3)"
    by (simp_all add: a1 a2 a3 a4)
  have sc: "sameScalars s s4"
    unfolding s4 s3 s2 s1
    by (intro sameScalars_trans [OF _ mathRandom_fields(1)] mathRandom_fields(1))
  have l: "rockets s4 = rockets s" "balls s4 = balls s" "objects s4 = objects s"
    "nextRef s4 = nextRef s" "store s4 = store s"
    by (simp_all add: s4 s3 s2 s1 mathRandom_fields)
  show "sameScalars s (createBigBall s)"
    unfolding ch by (rule sameScalars_trans [OF sc createGameObject_fields(1)])
  show "rockets (createBigBall s) = rockets s" "balls (createBigBall s) = balls s"
    by (simp_all add: ch createGameObject_fields l)
  show "spawned (createBigBall s)" if "spawned s"
  proof -
    from that have "spawned s4" by (simp add: spawned_def l)
    then show ?thesis unfolding ch by (rule spawned_createGameObject)
  qed
qed

text \<open>A creation step repeated.\<close>

lemma funpow_sameScalars:
  assumes "\<And>s. sameScalars s (f s)"
  shows "sameScalars s ((f ^^ n) s)"
  by (induction n) (auto intro: sameScalars_trans assms)

lemma funpow_spawned:
  assumes "\<And>s. spawned s \<Longrightarrow> spawned (f s)" "spawned s"
  shows "spawned ((f ^^ n) s)"
  by (induction n) (auto intro: assms)

lemma funpow_same:
  assumes "\<And>s. g (f s) = g s"
  shows "g ((f ^^ n) s) = g s"
  by (induction n) (simp_all add: assms)

lemma createBalls_fields:
  "sameScalars s (createBalls s)"
  "rockets (createBalls s) = rockets s"
  "length (balls (createBalls s)) = length (balls s) + nat (min (8 + level s) 15)"
  "spawned s \<Longrightarrow> spawned (createBalls s)"
proof -
  show "sameScalars s (createBalls s)"
    unfolding createBalls_def by (rule funpow_sameScalars) (rule createBall_fields)
  show "rockets (createBalls s) = rockets s"
    unfolding createBalls_def by (rule funpow_same) (rule createBall_fields)
  have "length (balls ((createBall ^^ n) s)) = length (balls s) + n" for n
    by (induction n) (simp_all add: createBall_fields)
  then show "length (balls (createBalls s)) = length (balls s) + nat (min (8 + level s) 15)"
    by (simp add: createBalls_def)
  show "spawned (createBalls s)" if "spawned s"
    unfolding createBalls_def using createBall_fields(4) that by (rule funpow_spawned)
qed

lemma createSpecialObjects_fields:
  "sameScalars s (createSpecialObjects s)"
  "rockets (createSpecialObjects s) = rockets s"
  "balls (createSpecialObjects s) = balls s"
  "spawned s \<Longrightarrow> spawned (createSpecialObjects s)"
proof -
  define s1 where "s1 = (if level s > 2 then (createHole ^^ nat (min (level s - 2) 3)) s else s)"
  have cs: "createSpecialObjects s =
     (if level s1 > 3 then (createBigBall ^^ nat (min (level s1 - 3) 2)) s1 else s1)"
    by (simp add: createSpecialObjects_def Let_def s1_def)
  have a: "sameScalars s s1"
    unfolding s1_def by (simp add: funpow_sameScalars createHole_fields)
  have b: "sameScalars s1 (createSpecialObjects s)"
    unfolding cs by (simp add: funpow_sameScalars createBigBall_fields)
  from a b show "sameScalars s (createSpecialObjects s)" by (rule sameScalars_trans)
  have r1: "rockets s1 = rockets s" "balls s1 = balls s"
    unfolding s1_def
    by (simp_all add: funpow_same [where f = createHole and g = rockets]
          funpow_same [where f = createHole and g = balls] createHole_fields)
  show "rockets (createSpecialObjects s) = rockets s" "balls (createSpecialObjects s) = balls s"
    unfolding cs
    by (simp_all add: funpow_same [where f = createBigBall and g = rockets]
          funpow_same [where f = createBigBall and g = balls] createBigBall_fields r1)
  show "spawned (createSpecialObjects s)" if "spawned s"
  proof -
    from that have "spawned s1"
      unfolding s1_def by (simp add: funpow_spawned createHole_fields)
    then show ?thesis
      unfolding cs by (simp add: funpow_spawned createBigBall_fields)
  qed
qed

lemma rocketPositions_length [simp]: "length (rocketPositions s) = 5"
  by (simp add: rocketPositions_def)

lemma createRocketsLoop_fields:
  assumes "\<forall>i\<in>set is. i < 5"
  shows "\<exists>s'. createRocketsLoop is s = Inr s' \<and> sameScalars s s' \<and>
           length (rockets s') = length (rockets s) + length is \<and>
           balls s' = balls s \<and> (spawned s \<longrightarrow> spawned s')"
  using assms
proof (induction "is" arbitrary: s)
  case Nil
  then show ?case by simp
next
  case (Cons i rest)
  define c where "c = \<lparr>c_type = ROCKET,
      c_x = fst (findSafeSpawnPosition (rocketPositions s ! i) s),
      c_y = snd (findSafeSpawnPosition (rocketPositions s ! i) s),
      c_vx = None, c_vy = None, c_playerId = Some (int i)\<rparr>"
  define s1 where "s1 = snd (createGameObject c s)"
  define s2 where "s2 = s1\<lparr>rockets := rockets s1 @ [nextRef s]\<rparr>"
  from Cons.prems have i: "i < 5" and rest: "\<forall>i\<in>set rest. i < 5" by simp_all
  have step: "createRocketsLoop (i # rest) s = createRocketsLoop rest s2"
    using i
    apply (simp add: Let_def c_def [symmetric])
    apply (subst createGameObject_result)
    apply (simp add: s1_def s2_def)
    done
  have sc: "sameScalars s s2"
    using createGameObject_fields(1) [of s c] by (simp add: s2_def s1_def sameScalars_def)
  have f: "length (rockets s2) = Suc (length (rockets s))" "balls s2 = balls s"
    by (simp_all add: s2_def s1_def createGameObject_fields)
  have sp: "spawned s2" if "spawned s"
  proof -
    from that have "spawned s1" unfolding s1_def by (rule spawned_createGameObject)
    moreover have "nextRef s \<in> set (objects s1)" "otype (store s1 (nextRef s)) = ROCKET"
      by (simp_all add: s1_def createGameObject_fields c_def)
    ultimately show ?thesis by (auto simp add: s2_def spawned_def)
  qed
  from Cons.IH [OF rest, of s2] obtain s' where
    s': "createRocketsLoop rest s2 = Inr s'" "sameScalars s2 s'"
      "length (rockets s') = length (rockets s2) + length rest"
      "balls s' = balls s2" "spawned s2 \<longrightarrow> spawned s'"
    by blast
  show ?case
  proof (intro exI [of _ s'] conjI impI)
    show "createRocketsLoop (i # rest) s = Inr s'"
      unfolding step by (rule s'(1))
    show "sameScalars s s'"
      using sc s'(2) by (rule sameScalars_trans)
    show "length (rockets s') = length (rockets s) + length (i # rest)"
      using s'(3) f(1) by simp
    show "balls s' = balls s"
      using s'(4) f(2) by simp
    show "spawned s'" if "spawned s"
      using s'(5) sp [OF that] by simp
  qed
qed

lemma initLevel_fields:
  assumes "playerCount s \<le> 5"
  shows "\<exists>s'. initLevel s = Inr s' \<and> sameScalars s s' \<and>
           length (rockets s') = length (rockets s) + playerCount s \<and>
           length (balls s') = length (balls s) + nat (min (8 + level s) 15) \<and>
           (spawned s \<longrightarrow> spawned s')"
proof -
  have "\<forall>i\<in>set [0..<playerCount s]. i < 5" using assms by auto
  from createRocketsLoop_fields [OF this, of s] obtain s1 where
    s1: "createRockets s = Inr s1" "sameScalars s s1"
      "length (rockets s1) = length (rockets s) + playerCount s"
      "balls s1 = balls s" "spawned s \<longrightarrow> spawned s1"
    by (auto simp add: createRockets_def)
  define s2 where "s2 = createBalls s1"
  define s3 where "s3 = (if level s2 > 1 then createSpecialObjects s2 else s2)"
  have il: "initLevel s = Inr s3"
    by (simp add: initLevel_def andThen_def s1(1) Let_def s2_def s3_def)
  have l1: "level s1 = level s" using s1(2) by (simp add: sameScalars_def)
  have a: "sameScalars s1 s2" "rockets s2 = rockets s1"
    "length (balls s2) = length (balls s1) + nat (min (8 + level s1) 15)"
    "spawned s1 \<longrightarrow> spawned s2"
    by (simp_all add: s2_def createBalls_fields)
  have b: "sameScalars s2 s3" "rockets s3 = rockets s2" "balls s3 = balls s2"
    "spawned s2 \<longrightarrow> spawned s3"
    by (simp_all add: s3_def createSpecialObjects_fields)
  have "sameScalars s s3"
    using s1(2) a(1) b(1) by (blast intro: sameScalars_trans)
  then show ?thesis
    using il s1 a b l1 by simp
qed

lemma clearGame_fields:
  "sameScalars s (clearGame s)" "rockets (clearGame s) = []" "balls (clearGame s) = []"
  "objects (clearGame s) = []" "spawned (clearGame s)"
  by (simp_all add: clearGame_def sameScalars_def spawned_def)

lemma restartLevel_fields:
  assumes "playerCount s \<le> 5"
  shows "\<exists>s'. restartLevel s = Inr s' \<and> level s' = level s \<and> score s' = score s \<and>
           lives s' = lives s \<and> nextLifeAt s' = nextLifeAt s \<and> emitted s' = emitted s \<and>
           gameState s' = Running \<and> length (rockets s') = playerCount s \<and>
           length (balls s') = nat (min (8 + level s) 15) \<and> spawned s'"
proof -
  have pc: "playerCount (clearGame s) \<le> 5" using assms by (simp add: clearGame_def)
  from initLevel_fields [OF pc] obtain s1 where
    s1: "initLevel (clearGame s) = Inr s1" "sameScalars (clearGame s) s1"
      "length (rockets s1) = length (rockets (clearGame s)) + playerCount (clearGame s)"
      "length (balls s1) = length (balls (clearGame s)) + nat (min (8 + level (clearGame s)) 15)"
      "spawned (clearGame s) \<longrightarrow> spawned s1"
    by blast
  have r: "restartLevel s = Inr (s1\<lparr>gameState := Running\<rparr>)"
    by (simp add: restartLevel_def andThen_def s1(1))
  have sp: "spawned (s1\<lparr>gameState := Running\<rparr>)"
    using s1(5) by (simp add: clearGame_fields spawned_def)
  show ?thesis
    using s1(2-4) sp unfolding r by (simp add: sameScalars_def clearGame_def)
qed

subsection \<open>The rules at the end of a tick\<close>

lemma aliveRockets_emit [simp]: "aliveRockets (emit e s) = aliveRockets s"
  by (simp add: aliveRockets_def)

lemma lastLife_fields:
  "objects lastLife = [Suc 0]" "rockets lastLife = [0]" "balls lastLife = []"
  "lives lastLife = 1" "gameState lastLife = Running" "score lastLife = 0"
  "level lastLife = 1" "emitted lastLife = []" "playerCount lastLife = 1"
  "live (store lastLife 0) = False" "live (store lastLife (Suc 0)) = True"
  "otype (store lastLife (Suc 0)) = BALL_SMALL"
  by (simp_all add: lastLife_def updateObjects_def fixture_defs)

lemma lastLife_alive: "aliveRockets lastLife = []" "aliveBalls lastLife = [Suc 0]"
  by (simp_all add: aliveRockets_def aliveBalls_def lastLife_fields isBall_def)

text \<open>
  C5 as stated fails where it says the phase becomes Stopped: with the last life lost
  \<open>checkGameState\<close> sends \<open>gameOver\<close> and leaves the phase Running.
\<close>

theorem game_over_keeps_running_counterexample:
  "aliveRockets lastLife = [] \<and> lives lastLife = 1 \<and> gameState lastLife = Running \<and>
   checkGameState lastLife = Inr (emit (GameOver 0 1) (lastLife\<lparr>lives := 0\<rparr>)) \<and>
   lives (emit (GameOver 0 1) (lastLife\<lparr>lives := 0\<rparr>)) = 0 \<and>
   gameState (emit (GameOver 0 1) (lastLife\<lparr>lives := 0\<rparr>)) = Running"
  by (simp add: checkGameState_def Let_def lastLife_alive lastLife_fields)

text \<open>
  C5, amended. With no alive rocket in \<open>this.rockets\<close>, \<open>checkGameState\<close> takes one
  life. If none is left then, it sends \<open>gameOver\<close> with the score and the level as the
  last event and respawns nothing: the objects stay as they are. If a life is left (and
  at most five players play) it restarts the same level: level and score are kept, the
  phase is Running, there is one rocket per player and \<open>min (8 + level) 15\<close> balls, and
  all objects are newly created and alive.
\<close>

theorem checkGameState_life_lost:
  assumes "aliveRockets s = []"
  shows "(lives s \<le> 1 \<longrightarrow>
            (\<exists>s'. checkGameState s = Inr s' \<and> lives s' = lives s - 1 \<and>
                  objects s' = objects s \<and> store s' = store s \<and>
                  last (emitted s') = GameOver (score s) (level s))) \<and>
         (1 < lives s \<and> playerCount s \<le> 5 \<longrightarrow>
            (\<exists>s'. checkGameState s = Inr s' \<and> lives s' = lives s - 1 \<and>
                  level s' = level s \<and> score s' = score s \<and> gameState s' = Running \<and>
                  length (rockets s') = playerCount s \<and>
                  length (balls s') = nat (min (8 + level s) 15) \<and> spawned s'))"
proof (intro conjI impI)
  assume "lives s \<le> 1"
  with assms show "\<exists>s'. checkGameState s = Inr s' \<and> lives s' = lives s - 1 \<and>
                  objects s' = objects s \<and> store s' = store s \<and>
                  last (emitted s') = GameOver (score s) (level s)"
    by (simp add: checkGameState_def Let_def)
next
  assume a: "1 < lives s \<and> playerCount s \<le> 5"
  define s1 where "s1 = (if length (aliveBalls s) = 0
                         then emit (LevelComplete (level s) (score s)) s else s)"
  define s2 where "s2 = s1\<lparr>lives := lives s1 - 1\<rparr>"
  have f: "lives s2 = lives s - 1" "level s2 = level s" "score s2 = score s"
    "playerCount s2 = playerCount s"
    by (simp_all add: s2_def s1_def)
  have c: "checkGameState s = restartLevel s2"
    using assms a by (simp add: checkGameState_def Let_def s1_def [symmetric] s2_def s1_def)
  have "playerCount s2 \<le> 5" using a f by simp
  from restartLevel_fields [OF this] show "\<exists>s'. checkGameState s = Inr s' \<and> lives s' = lives s - 1 \<and>
                  level s' = level s \<and> score s' = score s \<and> gameState s' = Running \<and>
                  length (rockets s') = playerCount s \<and>
                  length (balls s') = nat (min (8 + level s) 15) \<and> spawned s'"
    unfolding c f by blast
qed

lemma secondLife_alive: "aliveRockets secondLife = []"
  using lastLife_alive(1) by (simp add: secondLife_def aliveRockets_def)

lemma secondLife_fields:
  "lives secondLife = 2" "playerCount secondLife = 1" "level secondLife = 1"
  "score secondLife = 0"
  by (simp_all add: secondLife_def lastLife_fields)

theorem checkGameState_life_lost_witness:
  "aliveRockets lastLife = [] \<and> lives lastLife \<le> 1 \<and>
   (\<exists>s'. checkGameState lastLife = Inr s' \<and> lives s' = 0 \<and>
         objects s' = [1] \<and> store s' = store lastLife \<and>
         last (emitted s') = GameOver 0 1) \<and>
   aliveRockets secondLife = [] \<and> 1 < lives secondLife \<and> playerCount secondLife \<le> 5 \<and>
   (\<exists>s'. checkGameState secondLife = Inr s' \<and> lives s' = 1 \<and> level s' = 1 \<and>
         score s' = 0 \<and> gameState s' = Running \<and> length (rockets s') = 1 \<and>
         length (balls s') = 9 \<and> spawned s')"
  using checkGameState_life_lost [OF lastLife_alive(1)]
    checkGameState_life_lost [OF secondLife_alive]
  by (simp add: lastLife_alive secondLife_alive lastLife_fields secondLife_fields)

lemma cleared_fields:
  "objects cleared = [0]" "rockets cleared = [0]" "score cleared = 40" "level cleared = 1"
  "emitted cleared = []" "live (store cleared 0)" "otype (store cleared 0) = ROCKET"
  by (simp_all add: cleared_def fixture_defs)

lemma cleared_alive: "aliveBalls cleared = []" "aliveRockets cleared = [0]"
  by (simp_all add: aliveBalls_def aliveRockets_def cleared_fields isBall_def)

text \<open>
  C6 as stated fails where it says the state advances to the next level: with no ball
  left and a rocket alive, \<open>checkGameState\<close> sends \<open>levelComplete\<close> and changes neither
  the level nor any object, and the score is what it was.
\<close>

theorem level_complete_changes_nothing_counterexample:
  "aliveBalls cleared = [] \<and> score cleared = 40 \<and> level cleared = 1 \<and>
   checkGameState cleared = Inr (emit (LevelComplete 1 40) cleared) \<and>
   score (emit (LevelComplete 1 40) cleared) = 40 \<and>
   level (emit (LevelComplete 1 40) cleared) = 1 \<and>
   objects (emit (LevelComplete 1 40) cleared) = objects cleared \<and>
   store (emit (LevelComplete 1 40) cleared) = store cleared"
  by (simp add: checkGameState_def Let_def cleared_alive cleared_fields)

text \<open>
  C6, amended. With no alive ball in \<open>this.objects\<close>, \<open>checkGameState\<close> sends
  \<open>levelComplete\<close> with the current level and score as its first event and keeps the
  level. With a rocket alive that event is all it sends, and the objects, the phase and
  the lives stay as they are: setting up the next level is not part of the check.
\<close>

theorem checkGameState_level_complete:
  assumes "aliveBalls s = []"
  shows "(aliveRockets s \<noteq> [] \<or> playerCount s \<le> 5 \<longrightarrow>
            (\<exists>s'. checkGameState s = Inr s' \<and>
                  take (Suc (length (emitted s))) (emitted s') =
                    emitted s @ [LevelComplete (level s) (score s)] \<and>
                  level s' = level s)) \<and>
         (aliveRockets s \<noteq> [] \<longrightarrow>
            (\<exists>s'. checkGameState s = Inr s' \<and>
                  emitted s' = emitted s @ [LevelComplete (level s) (score s)] \<and>
                  level s' = level s \<and> objects s' = objects s \<and> store s' = store s \<and>
                  gameState s' = gameState s \<and> lives s' = lives s))"
proof (intro conjI impI)
  assume "aliveRockets s \<noteq> []"
  with assms show "\<exists>s'. checkGameState s = Inr s' \<and>
                  emitted s' = emitted s @ [LevelComplete (level s) (score s)] \<and>
                  level s' = level s \<and> objects s' = objects s \<and> store s' = store s \<and>
                  gameState s' = gameState s \<and> lives s' = lives s"
    by (simp add: checkGameState_def Let_def)
next
  assume a: "aliveRockets s \<noteq> [] \<or> playerCount s \<le> 5"
  define s1 where "s1 = emit (LevelComplete (level s) (score s)) s"
  define s2 where "s2 = s1\<lparr>lives := lives s1 - 1\<rparr>"
  have e: "emitted s2 = emitted s @ [LevelComplete (level s) (score s)]"
    "level s2 = level s" "playerCount s2 = playerCount s"
    by (simp_all add: s2_def s1_def)
  consider (alive) "aliveRockets s \<noteq> []"
    | (over) "aliveRockets s = []" "lives s \<le> 1"
    | (retry) "aliveRockets s = []" "1 < lives s" "playerCount s \<le> 5"
    using a by fastforce
  then show "\<exists>s'. checkGameState s = Inr s' \<and>
                  take (Suc (length (emitted s))) (emitted s') =
                    emitted s @ [LevelComplete (level s) (score s)] \<and>
                  level s' = level s"
  proof cases
    case alive
    with assms show ?thesis by (simp add: checkGameState_def Let_def)
  next
    case over
    with assms show ?thesis by (simp add: checkGameState_def Let_def)
  next
    case retry
    have c: "checkGameState s = restartLevel s2"
      using assms retry by (simp add: checkGameState_def Let_def s2_def s1_def)
    have "playerCount s2 \<le> 5" using retry e by simp
    from restartLevel_fields [OF this] show ?thesis
      unfolding c e by auto
  qed
qed

theorem checkGameState_level_complete_witness:
  "aliveBalls cleared = [] \<and> aliveRockets cleared \<noteq> [] \<and>
   (\<exists>s'. checkGameState cleared = Inr s' \<and> take 1 (emitted s') = [LevelComplete 1 40] \<and>
         level s' = 1) \<and>
   (\<exists>s'. checkGameState cleared = Inr s' \<and> emitted s' = [LevelComplete 1 40] \<and>
         level s' = 1 \<and> objects s' = [0] \<and> store s' = store cleared \<and>
         gameState s' = gameState cleared \<and> lives s' = lives cleared)"
  using checkGameState_level_complete [OF cleared_alive(1)]
  by (simp add: cleared_alive cleared_fields)

subsection \<open>Scoring within one tick\<close>

lemma scoring_trans: "scoring b c \<Longrightarrow> scoring a b \<Longrightarrow> scoring a c"
  by (induction rule: scoring.induct) (auto intro: scoring.intros)

lemma countersOf_same:
  assumes "score t = score s" "nextLifeAt t = nextLifeAt s" "lives t = lives s"
    "emitted t = emitted s" "playerCount t = playerCount s"
  shows "countersOf t = countersOf s"
  using assms by (simp add: countersOf_def extraLives_def)

lemma countersOf_basic [simp]:
  "countersOf (mutate r f s) = countersOf s"
  "countersOf (playSound c s) = countersOf s"
  "countersOf (applyGravity r s) = countersOf s"
  "countersOf (separateObjects r1 r2 nx ny ov s) = countersOf s"
  "countersOf (applyImpulse r1 r2 nx ny i s) = countersOf s"
  "countersOf (s\<lparr>deltaTime := dt\<rparr>) = countersOf s"
  "countersOf (updateObjects s) = countersOf s"
  by (simp_all add: countersOf_def extraLives_def separateObjects_def applyImpulse_def
        updateObjects_def Let_def)

lemma countersOf_checkExtraLife:
  "countersOf (checkExtraLife (s\<lparr>score := score s + p\<rparr>)) = award p (countersOf s)"
  by (simp add: countersOf_def award_def checkExtraLife_def Let_def extraLives_def)

lemma countersOf_checkExtraLife0:
  "countersOf (checkExtraLife s) = award 0 (countersOf s)"
  using countersOf_checkExtraLife [of s 0] by simp

lemma scoring_keepInBounds:
  assumes "scoring c (countersOf s)"
  shows "scoring c (countersOf (keepInBounds r s))"
proof -
  have m: "countersOf (mutate r (\<lambda>obj. obj\<lparr>live := False\<rparr>) s) = countersOf s" by simp
  have a: "scoring c (award p (countersOf s))" if "0 \<le> p" for p
    using assms that by (rule scoring_more)
  have b: "countersOf (checkExtraLife (mutate r f s\<lparr>score := score s + p\<rparr>))
             = award p (countersOf s)" for f p
    using countersOf_checkExtraLife [of "mutate r f s" p] by simp
  show ?thesis
    using assms a [of 5] a [of 10]
    by (simp add: keepInBounds_def Let_def b)
qed

lemma scoring_updateObject:
  assumes "scoring c (countersOf s)"
  shows "scoring c (countersOf (updateObject r s))"
  unfolding updateObject_def Let_def
  using assms by (auto intro!: scoring_keepInBounds)

lemma scoring_fold:
  assumes "\<And>x s. scoring c (countersOf s) \<Longrightarrow> scoring c (countersOf (f x s))"
    and "scoring c (countersOf s)"
  shows "scoring c (countersOf (fold f xs s))"
  using assms(2) by (induction xs arbitrary: s) (auto intro: assms(1))

lemma scoring_updatePhysics:
  "scoring c (countersOf s) \<Longrightarrow> scoring c (countersOf (updatePhysics s))"
  unfolding updatePhysics_def by (rule scoring_fold) (rule scoring_updateObject)

lemma scoring_handleSpecialCollisions:
  assumes "scoring c (countersOf s)"
  shows "scoring c (countersOf (handleSpecialCollisions r1 r2 s))"
proof -
  have a: "scoring c (award p (countersOf s))" if "0 \<le> p" for p
    using assms that by (rule scoring_more)
  have b: "countersOf (checkExtraLife (mutate r f s\<lparr>score := score s + p\<rparr>))
             = award p (countersOf s)" for r f p
    using countersOf_checkExtraLife [of "mutate r f s" p] by simp
  have b0: "countersOf (checkExtraLife (mutate r f s)) = award 0 (countersOf s)" for r f
    by (simp add: countersOf_checkExtraLife0)
  show ?thesis
    using assms a [of 0] a [of 10] a [of 20]
    by (simp add: handleSpecialCollisions_def Let_def b b0)
qed

lemma scoring_handleCollision:
  assumes "scoring c (countersOf s)"
  shows "scoring c (countersOf (handleCollision r1 r2 dx dy d s))"
  unfolding handleCollision_def Let_def
  using assms by (auto intro!: scoring_handleSpecialCollisions)

lemma scoring_checkPair:
  assumes "scoring c (countersOf s)"
  shows "scoring c (countersOf (checkPair r1 r2 s))"
  unfolding checkPair_def Let_def
  using assms by (auto intro!: scoring_handleCollision)

lemma scoring_checkCollisions:
  assumes "scoring c (countersOf s)"
  shows "scoring c (countersOf (checkCollisions s))"
  unfolding checkCollisions_def Let_def
  using assms by (intro scoring_fold scoring_checkPair)

lemma countersOf_processRocket [simp]:
  "countersOf (processRocket input ri s) = countersOf s"
  by (simp add: processRocket_def Let_def)

lemma countersOf_processInput [simp]:
  "countersOf (processInput input s) = countersOf s"
proof -
  have "countersOf (fold (processRocket input) xs s) = countersOf s" for xs
    by (induction xs arbitrary: s) simp_all
  then show ?thesis by (simp add: processInput_def)
qed

lemma scoring_crossing:
  assumes "scoring a b" "cScore a < cNext a"
  shows "cScore a \<le> cScore b \<and> cGranted a \<le> cGranted b \<and>
         cNext b = cNext a + 500 * int (cGranted b - cGranted a) \<and>
         cLives b = cLives a + int (cGranted b - cGranted a) \<and>
         cPlayers b = cPlayers a \<and>
         (cScore b < cNext a \<longrightarrow> cGranted b = cGranted a) \<and>
         (cGranted a < cGranted b \<longrightarrow> cNext b - 500 \<le> cScore b) \<and>
         (cNext a \<le> cScore b \<longrightarrow> cGranted a < cGranted b)"
  using assms
proof (induction rule: scoring.induct)
  case (scoring_none c)
  then show ?case by simp
next
  case (scoring_more c d p)
  then show ?case
    by (auto simp add: award_def Suc_diff_le)
qed

lemma scoring_once:
  assumes "scoring a b" "cScore a < cNext a" "cNext a \<le> cScore b" "cScore b < cNext a + 500"
  shows "cGranted b = cGranted a + 1 \<and> cNext b = cNext a + 500 \<and> cLives b = cLives a + 1"
proof -
  note f = scoring_crossing [OF assms(1,2)]
  from f assms(3) have g: "cGranted a < cGranted b" by simp
  with f have "cNext b - 500 \<le> cScore b" by simp
  with assms(4) have "cNext b < cNext a + 1000" by simp
  with f have "500 * int (cGranted b - cGranted a) < 1000" by simp
  then have "cGranted b - cGranted a < 2" by simp
  with g have e: "cGranted b - cGranted a = 1" by simp
  with f g show ?thesis by simp
qed

lemma createRocketsLoop_sameScalars:
  "createRocketsLoop is s = Inr s' \<Longrightarrow> sameScalars s s'"
proof (induction "is" arbitrary: s)
  case Nil
  then show ?case by simp
next
  case (Cons i rest)
  define c where "c = \<lparr>c_type = ROCKET,
      c_x = fst (findSafeSpawnPosition (rocketPositions s ! i) s),
      c_y = snd (findSafeSpawnPosition (rocketPositions s ! i) s),
      c_vx = None, c_vy = None, c_playerId = Some (int i)\<rparr>"
  define s1 where "s1 = snd (createGameObject c s)"
  define s2 where "s2 = s1\<lparr>rockets := rockets s1 @ [nextRef s]\<rparr>"
  from Cons.prems have i: "i < 5"
    by (simp split: if_splits)
  have step: "createRocketsLoop (i # rest) s = createRocketsLoop rest s2"
    using i
    apply (simp add: Let_def c_def [symmetric])
    apply (subst createGameObject_result)
    apply (simp add: s1_def s2_def)
    done
  have sc: "sameScalars s s2"
    using createGameObject_fields(1) [of s c] by (simp add: s2_def s1_def sameScalars_def)
  from Cons.prems have "createRocketsLoop rest s2 = Inr s'" unfolding step .
  then have "sameScalars s2 s'" by (rule Cons.IH)
  with sc show ?case by (rule sameScalars_trans)
qed

lemma restartLevel_sameScalars:
  assumes "restartLevel s = Inr s'"
  shows "score s' = score s" "lives s' = lives s" "nextLifeAt s' = nextLifeAt s"
    "emitted s' = emitted s" "playerCount s' = playerCount s"
proof -
  from assms obtain s1 where s1: "createRockets (clearGame s) = Inr s1"
    by (cases "createRockets (clearGame s)")
       (simp_all add: restartLevel_def initLevel_def andThen_def)
  define s2 where "s2 = createBalls s1"
  define s3 where "s3 = (if level s2 > 1 then createSpecialObjects s2 else s2)"
  have r: "s' = s3\<lparr>gameState := Running\<rparr>"
    using assms by (auto simp add: restartLevel_def initLevel_def andThen_def s1 Let_def s2_def s3_def)
  have "sameScalars (clearGame s) s1"
    using s1 unfolding createRockets_def by (rule createRocketsLoop_sameScalars)
  moreover have "sameScalars s1 s2" by (simp add: s2_def createBalls_fields)
  moreover have "sameScalars s2 s3" by (simp add: s3_def createSpecialObjects_fields)
  ultimately have "sameScalars (clearGame s) s3" by (blast intro: sameScalars_trans)
  then show "score s' = score s" "lives s' = lives s" "nextLifeAt s' = nextLifeAt s"
    "emitted s' = emitted s" "playerCount s' = playerCount s"
    by (simp_all add: r sameScalars_def clearGame_def)
qed

lemma checkGameState_counters:
  assumes "checkGameState s = Inr s'"
  shows "score s' = score s \<and> nextLifeAt s' = nextLifeAt s \<and> extraLives s' = extraLives s \<and>
         (lives s' = lives s \<or> lives s' = lives s - 1)"
proof -
  define s1 where "s1 = (if length (aliveBalls s) = 0
                         then emit (LevelComplete (level s) (score s)) s else s)"
  have f1: "score s1 = score s" "nextLifeAt s1 = nextLifeAt s" "lives s1 = lives s"
    "extraLives s1 = extraLives s"
    by (simp_all add: s1_def extraLives_def)
  define s2 where "s2 = s1\<lparr>lives := lives s1 - 1\<rparr>"
  have f2: "score s2 = score s" "nextLifeAt s2 = nextLifeAt s" "lives s2 = lives s - 1"
    "extraLives s2 = extraLives s"
    using f1 by (simp_all add: s2_def extraLives_def)
  have c: "checkGameState s =
     (if length (aliveRockets s1) = 0 then
        (if lives s2 \<le> 0 then Inr (emit (GameOver (score s2) (level s2)) s2)
         else restartLevel s2)
      else Inr s1)"
    by (simp add: checkGameState_def Let_def s1_def s2_def)
  show ?thesis
  proof (cases "length (aliveRockets s1) = 0")
    case False
    with assms have "Inr s1 = (Inr s' :: error + engine)" unfolding c by simp
    then have "s' = s1" by simp
    with f1 show ?thesis by simp
  next
    case True
    show ?thesis
    proof (cases "lives s2 \<le> 0")
      case over: True
      with True assms have "Inr (emit (GameOver (score s2) (level s2)) s2) = (Inr s' :: error + engine)"
        unfolding c by simp
      then have "s' = emit (GameOver (score s2) (level s2)) s2" by simp
      with f2 show ?thesis by (simp add: extraLives_def)
    next
      case retry: False
      with True assms have "restartLevel s2 = Inr s'" unfolding c by simp
      from restartLevel_sameScalars [OF this] f2 show ?thesis
        by (simp add: extraLives_def)
    qed
  qed
qed

lemma checkGameState_total:
  assumes "playerCount s \<le> 5"
  shows "\<exists>s'. checkGameState s = Inr s'"
proof -
  have "\<exists>s'. restartLevel t = Inr s'" if "playerCount t \<le> 5" for t
    using restartLevel_fields [OF that] by blast
  then show ?thesis
    using assms by (simp add: checkGameState_def Let_def)
qed

text \<open>The tick up to the rules check.\<close>

lemma gameLoop_running:
  assumes "gameState s = Running"
  shows "gameLoop delta input s =
     andThen (checkGameState (updateObjects (checkCollisions (updatePhysics
                (processInput input (s\<lparr>deltaTime := delta / Fin 60\<rparr>))))))
       (\<lambda>s. Inr (emit (ScoreUpdate (score s) (level s) (lives s)) s))"
  using assms by (simp add: gameLoop_def Let_def)

lemma scoring_tick:
  "scoring (countersOf s) (countersOf (updateObjects (checkCollisions (updatePhysics
                (processInput input (s\<lparr>deltaTime := dt\<rparr>))))))"
proof -
  have "scoring (countersOf s) (countersOf (processInput input (s\<lparr>deltaTime := dt\<rparr>)))"
    by (simp add: scoring_none)
  then have "scoring (countersOf s) (countersOf (checkCollisions (updatePhysics
                (processInput input (s\<lparr>deltaTime := dt\<rparr>)))))"
    by (intro scoring_checkCollisions scoring_updatePhysics)
  then show ?thesis by simp
qed

lemma gameLoop_total:
  assumes "playerCount s \<le> 5"
  shows "\<exists>s'. gameLoop delta input s = Inr s'"
proof (cases "gameState s = Running")
  case False
  then show ?thesis by (simp add: gameLoop_def)
next
  case True
  define m where "m = updateObjects (checkCollisions (updatePhysics
                (processInput input (s\<lparr>deltaTime := delta / Fin 60\<rparr>))))"
  have "scoring (countersOf s) (countersOf m)"
    unfolding m_def by (rule scoring_tick)
  then have "cPlayers (countersOf m) = cPlayers (countersOf s)"
    by (induction rule: scoring.induct) (simp_all add: award_def)
  with assms have "playerCount m \<le> 5" by (simp add: countersOf_def)
  from checkGameState_total [OF this] show ?thesis
    unfolding gameLoop_running [OF True] m_def [symmetric] by (auto simp add: andThen_def)
qed

text \<open>
  C3. A tick that ends with a result, begun with the score below the threshold
  \<open>nextLifeAt\<close> and ended with the score at or above that threshold and less than 500
  above it: exactly one \<open>extraLife\<close> event was sent in the tick, and the threshold has grown
  by exactly 500. The lives have grown by one, or are back at their old number when the
  same tick also took a life because no rocket was left. Every tick of a game of at most
  five players ends with a result (\<open>gameLoop_total\<close>).
\<close>

theorem gameLoop_single_crossing:
  assumes "gameLoop delta input s = Inr s'"
    and "score s < nextLifeAt s" "nextLifeAt s \<le> score s'" "score s' < nextLifeAt s + 500"
  shows "extraLives s' = extraLives s + 1 \<and> nextLifeAt s' = nextLifeAt s + 500 \<and>
         (lives s' = lives s + 1 \<or> lives s' = lives s)"
proof -
  have run: "gameState s = Running"
    using assms by (auto simp add: gameLoop_def split: if_splits)
  define m where "m = updateObjects (checkCollisions (updatePhysics
                (processInput input (s\<lparr>deltaTime := delta / Fin 60\<rparr>))))"
  from assms(1) obtain t where t: "checkGameState m = Inr t"
    and s': "s' = emit (ScoreUpdate (score t) (level t) (lives t)) t"
    unfolding gameLoop_running [OF run] m_def [symmetric]
    by (cases "checkGameState m") (auto simp add: andThen_def)
  note c = checkGameState_counters [OF t]
  have e: "score s' = score m" "nextLifeAt s' = nextLifeAt m" "extraLives s' = extraLives m"
    "lives s' = lives m \<or> lives s' = lives m - 1"
    using c by (simp_all add: s' extraLives_def)
  have sc: "scoring (countersOf s) (countersOf m)"
    unfolding m_def by (rule scoring_tick)
  have "cGranted (countersOf m) = cGranted (countersOf s) + 1 \<and>
        cNext (countersOf m) = cNext (countersOf s) + 500 \<and>
        cLives (countersOf m) = cLives (countersOf s) + 1"
    using sc assms(2-4) e(1) by (intro scoring_once) (simp_all add: countersOf_def)
  then show ?thesis
    using e by (auto simp add: countersOf_def)
qed

lemma crossing_scalars:
  "gameState crossing = Running" "score crossing = 495" "nextLifeAt crossing = 500"
  "lives crossing = 3" "playerCount crossing = 1" "emitted crossing = []"
  by (simp_all add: crossing_def fixture_defs)


lemma mutate_same: "f (store s r) = store s r \<Longrightarrow> mutate r f s = s"
  by (simp add: mutate_def)

lemma fold_gravityFrom_no_holes:
  "\<forall>h\<in>set hs. otype (store s h) \<noteq> HOLE \<Longrightarrow> fold (gravityFrom r) hs s = s"
  by (induction hs) (simp_all add: gravityFrom_def)

lemma applyGravity_no_holes:
  "\<forall>h\<in>set (objects s). otype (store s h) \<noteq> HOLE \<Longrightarrow> applyGravity r s = s"
  by (simp add: applyGravity_def fold_gravityFrom_no_holes)

lemma checkPair_dead: "\<not> live (store s r1) \<or> \<not> live (store s r2) \<Longrightarrow> checkPair r1 r2 s = s"
  by (auto simp add: checkPair_def)

lemma checkCollisions_three:
  "objects s = [a, b, c] \<Longrightarrow>
   checkCollisions s = checkPair b c (checkPair a c (checkPair a b s))"
  by (simp add: checkCollisions_def Let_def upt_rec)

lemmas object_step_defs =
  applyForces_def applyFriction_def capVelocity_def maxVel_def updatePosition_def

lemma crossing_mid:
  "score (updateObjects (checkCollisions (updatePhysics
      (processInput idle (crossing\<lparr>deltaTime := Fin 1 / Fin 60\<rparr>))))) = 515"
  "lives (updateObjects (checkCollisions (updatePhysics
      (processInput idle (crossing\<lparr>deltaTime := Fin 1 / Fin 60\<rparr>))))) = 4"
  "aliveRockets (updateObjects (checkCollisions (updatePhysics
      (processInput idle (crossing\<lparr>deltaTime := Fin 1 / Fin 60\<rparr>))))) \<noteq> []"
proof -
  define C where "C = crossing\<lparr>deltaTime := Fin 1 / Fin 60\<rparr>"
  have C: "objects C = [0, Suc 0, 2]" "rockets C = [0]" "deltaTime C = Fin (1 / 60)"
    "screenWidth C = Fin 800" "screenHeight C = Fin 600" "score C = 495" "nextLifeAt C = 500"
    "lives C = 3"
    "store C 0 =
       \<lparr>otype = ROCKET, xpos = Fin 400, ypos = Fin 300, vx = Fin 0, vy = Fin 0,
        fx = Fin 0, fy = Fin 0, radius = Fin 14, mass = Fin 4, live = True, playerId = - 1\<rparr>"
    "store C (Suc 0) =
       \<lparr>otype = BALL_LARGE, xpos = Fin 5, ypos = Fin 300, vx = Fin 0, vy = Fin 0,
        fx = Fin 0, fy = Fin 0, radius = Fin 16, mass = Fin 6, live = True, playerId = - 1\<rparr>"
    "store C 2 =
       \<lparr>otype = BALL_LARGE, xpos = Fin 795, ypos = Fin 300, vx = Fin 0, vy = Fin 0,
        fx = Fin 0, fy = Fin 0, radius = Fin 16, mass = Fin 6, live = True, playerId = - 1\<rparr>"
    by (simp_all add: C_def crossing_def fixture_defs)
  have p: "processInput idle C = C"
    by (simp add: processInput_def processRocket_def idle_def Let_def C mutate_same)
  have u0: "updateObject 0 C = C"
    by (simp add: updateObject_def Let_def applyGravity_no_holes C object_step_defs
          mutate_same keepInBounds_def)
  define C1 where "C1 = playSound objectDeath (checkExtraLife
     ((mutate (Suc 0) (\<lambda>obj. obj\<lparr>live := False\<rparr>) C)\<lparr>score := score C + 10\<rparr>))"
  have u1: "updateObject (Suc 0) C = C1"
    by (simp add: updateObject_def Let_def applyGravity_no_holes C object_step_defs
          mutate_same keepInBounds_def C1_def)
  have C1: "objects C1 = [0, Suc 0, 2]" "deltaTime C1 = Fin (1 / 60)"
    "screenWidth C1 = Fin 800" "screenHeight C1 = Fin 600" "score C1 = 505"
    "lives C1 = 4" "nextLifeAt C1 = 1000" "rockets C1 = [0]"
    "store C1 0 = store C 0" "live (store C1 (Suc 0)) = False" "store C1 2 = store C 2"
    "otype (store C1 (Suc 0)) = BALL_LARGE"
    by (simp_all add: C1_def C checkExtraLife_lives checkExtraLife_nextLifeAt)
  define C2 where "C2 = playSound objectDeath (checkExtraLife
     ((mutate 2 (\<lambda>obj. obj\<lparr>live := False\<rparr>) C1)\<lparr>score := score C1 + 10\<rparr>))"
  have u2: "updateObject 2 C1 = C2"
    by (simp add: updateObject_def Let_def applyGravity_no_holes C1 C object_step_defs
          mutate_same keepInBounds_def C2_def)
  have C2: "objects C2 = [0, Suc 0, 2]" "score C2 = 515"
    "live (store C2 (Suc 0)) = False" "live (store C2 2) = False"
    "lives C2 = 4" "rockets C2 = [0]" "live (store C2 0)"
    by (simp_all add: C2_def C1 C checkExtraLife_lives)
  have up: "updatePhysics C = C2"
    by (simp add: updatePhysics_def C u0 u1 u2)
  have cc: "checkCollisions C2 = C2"
    by (simp add: checkCollisions_three [OF C2(1)] checkPair_dead C2)
  show "score (updateObjects (checkCollisions (updatePhysics
      (processInput idle (crossing\<lparr>deltaTime := Fin 1 / Fin 60\<rparr>))))) = 515"
    unfolding C_def [symmetric] p up cc by (simp add: updateObjects_def C2)
  show "lives (updateObjects (checkCollisions (updatePhysics
      (processInput idle (crossing\<lparr>deltaTime := Fin 1 / Fin 60\<rparr>))))) = 4"
    unfolding C_def [symmetric] p up cc by (simp add: updateObjects_def C2)
  show "aliveRockets (updateObjects (checkCollisions (updatePhysics
      (processInput idle (crossing\<lparr>deltaTime := Fin 1 / Fin 60\<rparr>))))) \<noteq> []"
    unfolding C_def [symmetric] p up cc by (simp add: updateObjects_def aliveRockets_def C2)
qed

lemma checkGameState_alive:
  assumes "aliveRockets s \<noteq> []"
  shows "\<exists>s'. checkGameState s = Inr s' \<and> lives s' = lives s \<and> score s' = score s"
  using assms by (simp add: checkGameState_def Let_def)

theorem gameLoop_single_crossing_witness:
  "score crossing < nextLifeAt crossing \<and>
   (\<exists>s'. gameLoop (Fin 1) idle crossing = Inr s' \<and>
         nextLifeAt crossing \<le> score s' \<and> score s' < nextLifeAt crossing + 500 \<and>
         score crossing = 495 \<and> score s' = 515 \<and>
         extraLives crossing = 0 \<and> extraLives s' = 1 \<and>
         nextLifeAt crossing = 500 \<and> nextLifeAt s' = 1000 \<and>
         lives crossing = 3 \<and> lives s' = 4)"
proof -
  define M where "M = updateObjects (checkCollisions (updatePhysics
      (processInput idle (crossing\<lparr>deltaTime := Fin 1 / Fin 60\<rparr>))))"
  have M: "score M = 515" "lives M = 4" "aliveRockets M \<noteq> []"
    unfolding M_def by (rule crossing_mid)+
  from checkGameState_alive [OF M(3)] obtain t where
    t: "checkGameState M = Inr t" "lives t = lives M" "score t = score M"
    by blast
  define s' where "s' = emit (ScoreUpdate (score t) (level t) (lives t)) t"
  have g: "gameLoop (Fin 1) idle crossing = Inr s'"
    unfolding gameLoop_running [OF crossing_scalars(1)] M_def [symmetric]
    by (simp add: t(1) andThen_def s'_def)
  have f: "score s' = 515" "lives s' = 4"
    using t M by (simp_all add: s'_def)
  have h: "score crossing < nextLifeAt crossing" "nextLifeAt crossing \<le> score s'"
    "score s' < nextLifeAt crossing + 500"
    by (simp_all add: f crossing_scalars)
  from gameLoop_single_crossing [OF g h] f g h show ?thesis
    by (auto simp add: crossing_scalars extraLives_def)
qed

subsection \<open>The physics update, object by object\<close>

lemma object_steps_rest [simp]:
  "radius (applyForces dt obj) = radius obj" "live (applyForces dt obj) = live obj"
  "fx (applyForces dt obj) = fx obj" "fy (applyForces dt obj) = fy obj"
  "radius (applyFriction obj) = radius obj" "live (applyFriction obj) = live obj"
  "fx (applyFriction obj) = fx obj" "fy (applyFriction obj) = fy obj"
  "radius (capVelocity obj) = radius obj" "live (capVelocity obj) = live obj"
  "fx (capVelocity obj) = fx obj" "fy (capVelocity obj) = fy obj"
  "radius (updatePosition obj) = radius obj" "live (updatePosition obj) = live obj"
  "fx (updatePosition obj) = fx obj" "fy (updatePosition obj) = fy obj"
  by (simp_all add: applyForces_def applyFriction_def capVelocity_def updatePosition_def Let_def)

lemma updateObject_moveObject:
  "updateObject r s = (if \<not> live (store s r) then s else keepInBounds r (moveObject r s))"
  by (simp add: updateObject_def moveObject_def Let_def)

lemma gravityFrom_other: "q \<noteq> r \<Longrightarrow> store (gravityFrom r h s) q = store s q"
  by (simp add: gravityFrom_def Let_def)

lemma fold_gravityFrom_other: "q \<noteq> r \<Longrightarrow> store (fold (gravityFrom r) hs s) q = store s q"
  by (induction hs arbitrary: s) (simp_all add: gravityFrom_other)

lemma applyGravity_other_store: "q \<noteq> r \<Longrightarrow> store (applyGravity r s) q = store s q"
  by (simp add: applyGravity_def fold_gravityFrom_other)

lemma moveObject_frame:
  "q \<noteq> r \<Longrightarrow> store (moveObject r s) q = store s q"
  "otype (store (moveObject r s) q) = otype (store s q)"
  "radius (store (moveObject r s) q) = radius (store s q)"
  "live (store (moveObject r s) q) = live (store s q)"
  "screenWidth (moveObject r s) = screenWidth s"
  "screenHeight (moveObject r s) = screenHeight s"
  "objects (moveObject r s) = objects s"
  "deltaTime (moveObject r s) = deltaTime s"
  "score (moveObject r s) = score s"
  "emitted (moveObject r s) = emitted s"
  by (simp_all add: moveObject_def Let_def applyGravity_other_store)

lemma moveObject_force:
  "fx (store (moveObject r s) r) = fx (store (applyGravity r s) r)"
  "fy (store (moveObject r s) r) = fy (store (applyGravity r s) r)"
  by (simp_all add: moveObject_def Let_def)

lemma keepInBounds_frame:
  "q \<noteq> r \<Longrightarrow> store (keepInBounds r s) q = store s q"
  "radius (store (keepInBounds r s) q) = radius (store s q)"
  "fx (store (keepInBounds r s) q) = fx (store s q)"
  "fy (store (keepInBounds r s) q) = fy (store s q)"
  "screenWidth (keepInBounds r s) = screenWidth s"
  "screenHeight (keepInBounds r s) = screenHeight s"
  "objects (keepInBounds r s) = objects s"
  "deltaTime (keepInBounds r s) = deltaTime s"
  by (simp_all add: keepInBounds_def Let_def)

lemma keepInBounds_live: "live (store (keepInBounds r s) q) \<Longrightarrow> live (store s q)"
  by (simp add: keepInBounds_def Let_def split: if_splits)

lemma keepInBounds_hit:
  assumes "touchesWall r s"
  shows "(otype (store s r) \<noteq> HOLE \<longrightarrow>
            \<not> live (store (keepInBounds r s) r) \<and>
            score (keepInBounds r s) = score s + wallPoints (otype (store s r)) \<and>
            last (emitted (keepInBounds r s)) = PlaySound (deathSound (otype (store s r)))) \<and>
         (otype (store s r) = HOLE \<longrightarrow> keepInBounds r s = s)"
  using assms
  by (simp add: keepInBounds_def touchesWall_def Let_def wallPoints_def deathSound_def)

lemma keepInBounds_miss: "\<not> touchesWall r s \<Longrightarrow> keepInBounds r s = s"
  by (simp add: keepInBounds_def touchesWall_def Let_def)

lemma updateObject_frame:
  "q \<noteq> r \<Longrightarrow> store (updateObject r s) q = store s q"
  "otype (store (updateObject r s) q) = otype (store s q)"
  "radius (store (updateObject r s) q) = radius (store s q)"
  "screenWidth (updateObject r s) = screenWidth s"
  "screenHeight (updateObject r s) = screenHeight s"
  "objects (updateObject r s) = objects s"
  "deltaTime (updateObject r s) = deltaTime s"
  by (simp_all add: updateObject_moveObject keepInBounds_frame moveObject_frame)

lemma updateObject_live: "live (store (updateObject r s) q) \<Longrightarrow> live (store s q)"
  by (auto simp add: updateObject_moveObject moveObject_frame dest: keepInBounds_live
        split: if_splits)

lemma fold_updateObject_frame:
  "otype (store (fold updateObject xs s) q) = otype (store s q)"
  "radius (store (fold updateObject xs s) q) = radius (store s q)"
  "screenWidth (fold updateObject xs s) = screenWidth s"
  "screenHeight (fold updateObject xs s) = screenHeight s"
  "objects (fold updateObject xs s) = objects s"
  "deltaTime (fold updateObject xs s) = deltaTime s"
  by (induction xs arbitrary: s; simp add: updateObject_frame)+

lemma fold_updateObject_other:
  "q \<notin> set xs \<Longrightarrow> store (fold updateObject xs s) q = store s q"
  by (induction xs arbitrary: s) (simp_all add: updateObject_frame)

lemma nth_apart:
  assumes "distinct xs" "i < length xs"
  shows "xs ! i \<notin> set (take i xs)" "xs ! i \<notin> set (drop (Suc i) xs)"
proof -
  from assms(1) have "distinct (take i xs @ xs ! i # drop (Suc i) xs)"
    by (simp only: id_take_nth_drop [OF assms(2), symmetric])
  then show "xs ! i \<notin> set (take i xs)" "xs ! i \<notin> set (drop (Suc i) xs)"
    by auto
qed

lemma turnOf_frame:
  "otype (store (turnOf i s) q) = otype (store s q)"
  "radius (store (turnOf i s) q) = radius (store s q)"
  "screenWidth (turnOf i s) = screenWidth s"
  "screenHeight (turnOf i s) = screenHeight s"
  "objects (turnOf i s) = objects s"
  "deltaTime (turnOf i s) = deltaTime s"
  by (simp_all add: turnOf_def fold_updateObject_frame)

lemma turnOf_store:
  assumes "distinct (objects s)" "i < length (objects s)"
  shows "store (turnOf i s) (objects s ! i) = store s (objects s ! i)"
  unfolding turnOf_def using nth_apart(1) [OF assms] by (rule fold_updateObject_other)

lemma updatePhysics_turnOf:
  assumes "i < length (objects s)"
  shows "updatePhysics s =
           fold updateObject (drop (Suc i) (objects s)) (updateObject (objects s ! i) (turnOf i s))"
proof -
  have "fold updateObject (objects s) s =
          fold updateObject (take i (objects s) @ objects s ! i # drop (Suc i) (objects s)) s"
    by (simp only: id_take_nth_drop [OF assms, symmetric])
  then show ?thesis
    by (simp add: updatePhysics_def turnOf_def)
qed

lemma updatePhysics_store:
  assumes "distinct (objects s)" "i < length (objects s)"
  shows "store (updatePhysics s) (objects s ! i) =
           store (updateObject (objects s ! i) (turnOf i s)) (objects s ! i)"
  unfolding updatePhysics_turnOf [OF assms(2)]
  using nth_apart(2) [OF assms] by (rule fold_updateObject_other)

lemma turnOf_first: "turnOf 0 s = s"
  by (simp add: turnOf_def)

subsection \<open>The pull of the holes\<close>

lemma pull_other: "\<not> (live hole \<and> otype hole = HOLE) \<Longrightarrow> pull x1 y1 hole = (0, 0)"
  by (auto simp add: pull_def Let_def split: jsnum.splits)

lemma pull_fields:
  assumes "xpos a = xpos b" "ypos a = ypos b" "live a = live b" "otype a = otype b"
  shows "pull x1 y1 a = pull x1 y1 b"
  unfolding pull_def assms by (rule refl)

lemma sum_nonneg_squares: "\<not> (a::real) * a + b * b < 0"
  by (simp add: not_less)

lemma gravityFrom_pull:
  assumes "otype (store s r) \<noteq> HOLE"
    and "xpos (store s r) = Fin x1" "ypos (store s r) = Fin y1"
    and "fx (store s r) = Fin f1" "fy (store s r) = Fin f2"
    and "live (store s h) \<and> otype (store s h) = HOLE \<longrightarrow>
           isFinite (xpos (store s h)) \<and> isFinite (ypos (store s h))"
  shows "fx (store (gravityFrom r h s) r) = Fin (f1 + fst (pull x1 y1 (store s h)))"
    and "fy (store (gravityFrom r h s) r) = Fin (f2 + snd (pull x1 y1 (store s h)))"
proof -
  show "fx (store (gravityFrom r h s) r) = Fin (f1 + fst (pull x1 y1 (store s h)))"
  proof (cases "live (store s h) \<and> otype (store s h) = HOLE")
    case False
    then show ?thesis
      using assms(4) by (auto simp add: gravityFrom_def pull_other)
  next
    case True
    with assms(6) obtain x2 y2 where p: "xpos (store s h) = Fin x2" "ypos (store s h) = Fin y2"
      by (cases "xpos (store s h)"; cases "ypos (store s h)"; simp)
    from True assms(1) have "h \<noteq> r" by auto
    with True p assms(2-5) show ?thesis
      by (simp add: gravityFrom_def pull_def Let_def sum_nonneg_squares
            MIN_GRAVITY_DISTANCE_def MAX_GRAVITY_DISTANCE_def GRAVITY_STRENGTH_def)
  qed
  show "fy (store (gravityFrom r h s) r) = Fin (f2 + snd (pull x1 y1 (store s h)))"
  proof (cases "live (store s h) \<and> otype (store s h) = HOLE")
    case False
    then show ?thesis
      using assms(5) by (auto simp add: gravityFrom_def pull_other)
  next
    case True
    with assms(6) obtain x2 y2 where p: "xpos (store s h) = Fin x2" "ypos (store s h) = Fin y2"
      by (cases "xpos (store s h)"; cases "ypos (store s h)"; simp)
    from True assms(1) have "h \<noteq> r" by auto
    with True p assms(2-5) show ?thesis
      by (simp add: gravityFrom_def pull_def Let_def sum_nonneg_squares
            MIN_GRAVITY_DISTANCE_def MAX_GRAVITY_DISTANCE_def GRAVITY_STRENGTH_def)
  qed
qed

lemma fold_gravityFrom_sum:
  assumes "otype (store s r) \<noteq> HOLE"
    and "xpos (store s r) = Fin x1" "ypos (store s r) = Fin y1"
    and "fx (store s r) = Fin f1" "fy (store s r) = Fin f2"
    and "\<forall>h\<in>set hs. live (store s h) \<and> otype (store s h) = HOLE \<longrightarrow>
           isFinite (xpos (store s h)) \<and> isFinite (ypos (store s h))"
  shows "fx (store (fold (gravityFrom r) hs s) r) =
           Fin (f1 + (\<Sum>h\<leftarrow>hs. fst (pull x1 y1 (store s h)))) \<and>
         fy (store (fold (gravityFrom r) hs s) r) =
           Fin (f2 + (\<Sum>h\<leftarrow>hs. snd (pull x1 y1 (store s h))))"
  using assms
proof (induction hs arbitrary: s f1 f2)
  case Nil
  then show ?case by simp
next
  case (Cons h hs)
  define s1 where "s1 = gravityFrom r h s"
  have k: "\<And>q. xpos (store s1 q) = xpos (store s q)" "\<And>q. ypos (store s1 q) = ypos (store s q)"
    "\<And>q. live (store s1 q) = live (store s q)" "\<And>q. otype (store s1 q) = otype (store s q)"
    by (simp_all add: s1_def gravityFrom_keeps)
  have p: "pull x1 y1 (store s1 q) = pull x1 y1 (store s q)" for q
    by (rule pull_fields) (simp_all add: k)
  from Cons.prems have fin: "live (store s h) \<and> otype (store s h) = HOLE \<longrightarrow>
           isFinite (xpos (store s h)) \<and> isFinite (ypos (store s h))"
    by simp
  note st = gravityFrom_pull [OF Cons.prems(1-5) fin, folded s1_def]
  have "fx (store (fold (gravityFrom r) hs s1) r) =
           Fin (f1 + fst (pull x1 y1 (store s h)) + (\<Sum>h\<leftarrow>hs. fst (pull x1 y1 (store s1 h)))) \<and>
         fy (store (fold (gravityFrom r) hs s1) r) =
           Fin (f2 + snd (pull x1 y1 (store s h)) + (\<Sum>h\<leftarrow>hs. snd (pull x1 y1 (store s1 h))))"
    using Cons.prems by (intro Cons.IH st) (simp_all add: k)
  then show ?case
    by (simp add: s1_def [symmetric] p add.assoc)
qed

lemma pull_outside:
  assumes "xpos hole = Fin x2" "ypos hole = Fin y2"
    and "d = sqrt ((x2 - x1) * (x2 - x1) + (y2 - y1) * (y2 - y1))"
    and "Fin d \<le> MIN_GRAVITY_DISTANCE \<or> Fin d \<ge> MAX_GRAVITY_DISTANCE"
  shows "pull x1 y1 hole = (0, 0)"
  using assms
  by (auto simp add: pull_def Let_def MIN_GRAVITY_DISTANCE_def MAX_GRAVITY_DISTANCE_def)

lemma pull_inside:
  assumes "live hole" "otype hole = HOLE" "xpos hole = Fin x2" "ypos hole = Fin y2"
    and "d = sqrt ((x2 - x1) * (x2 - x1) + (y2 - y1) * (y2 - y1))"
    and "MIN_GRAVITY_DISTANCE < Fin d \<and> Fin d < MAX_GRAVITY_DISTANCE"
  shows "Fin (sqrt (fst (pull x1 y1 hole) * fst (pull x1 y1 hole) +
                    snd (pull x1 y1 hole) * snd (pull x1 y1 hole)))
           = GRAVITY_STRENGTH / (Fin d * Fin d)"
    and "\<exists>k. 0 < k \<and> pull x1 y1 hole = (k * (x2 - x1), k * (y2 - y1))"
proof -
  from assms(6) have d: "30 < d" "d < 150"
    by (simp_all add: MIN_GRAVITY_DISTANCE_def MAX_GRAVITY_DISTANCE_def)
  define g where "g = 1000 / (d * d)"
  have g: "0 < g" using d by (simp add: g_def)
  have p: "pull x1 y1 hole = ((x2 - x1) / d * g, (y2 - y1) / d * g)"
    using assms(1-4) d by (simp add: pull_def Let_def assms(5) [symmetric] g_def)
  have "0 < d" using d(1) by simp
  with assms(5) have "sqrt (((x2 - x1) / d * g) * ((x2 - x1) / d * g) +
                            ((y2 - y1) / d * g) * ((y2 - y1) / d * g)) = g"
    using g by (rule unit_pull)
  then show "Fin (sqrt (fst (pull x1 y1 hole) * fst (pull x1 y1 hole) +
                    snd (pull x1 y1 hole) * snd (pull x1 y1 hole)))
           = GRAVITY_STRENGTH / (Fin d * Fin d)"
    using d by (simp add: p GRAVITY_STRENGTH_def g_def)
  have "0 < g / d" "pull x1 y1 hole = (g / d * (x2 - x1), g / d * (y2 - y1))"
    using g d by (simp_all add: p)
  then show "\<exists>k. 0 < k \<and> pull x1 y1 hole = (k * (x2 - x1), k * (y2 - y1))"
    by blast
qed

lemma updateObject_force:
  assumes "live (store s r)"
  shows "fx (store (updateObject r s) r) = fx (store (applyGravity r s) r)"
    and "fy (store (updateObject r s) r) = fy (store (applyGravity r s) r)"
  using assms by (simp_all add: updateObject_moveObject keepInBounds_frame moveObject_force)

text \<open>
  C4. Let \<open>r\<close> be an alive object of \<open>this.objects\<close> that is not a hole, with the finite
  position \<open>(x1, y1)\<close> and the finite force \<open>(f1, f2)\<close>, and let \<open>b\<close> be the engine when the
  loop of \<open>updatePhysics\<close> reaches \<open>r\<close>. \<open>applyGravity\<close> then adds to the force on \<open>r\<close> one
  vector \<open>g h\<close> for every entry \<open>h\<close> of \<open>this.objects\<close>, and the sum is the force on \<open>r\<close>
  when \<open>updatePhysics\<close> has ended. The vector is zero for an entry that is not an alive
  hole. For an alive hole at the distance \<open>d\<close> from \<open>r\<close> it is zero when \<open>d\<close> is at most
  \<open>MIN_GRAVITY_DISTANCE\<close> or at least \<open>MAX_GRAVITY_DISTANCE\<close>; with \<open>d\<close> strictly between
  them it has the length \<open>GRAVITY_STRENGTH / d\<^sup>2\<close> and is a positive multiple of the
  vector from \<open>r\<close> to the hole.
\<close>

theorem updatePhysics_gravity:
  assumes "distinct (objects s)" "i < length (objects s)" "r = objects s ! i"
    and "b = turnOf i s"
    and "live (store s r)" "otype (store s r) \<noteq> HOLE"
    and "xpos (store s r) = Fin x1" "ypos (store s r) = Fin y1"
    and "fx (store s r) = Fin f1" "fy (store s r) = Fin f2"
    and "\<forall>h\<in>set (objects s). live (store b h) \<and> otype (store b h) = HOLE \<longrightarrow>
           isFinite (xpos (store b h)) \<and> isFinite (ypos (store b h))"
  shows "\<exists>g. fx (store (applyGravity r b) r) = Fin (f1 + (\<Sum>h\<leftarrow>objects s. fst (g h))) \<and>
             fy (store (applyGravity r b) r) = Fin (f2 + (\<Sum>h\<leftarrow>objects s. snd (g h))) \<and>
             fx (store (updatePhysics s) r) = Fin (f1 + (\<Sum>h\<leftarrow>objects s. fst (g h))) \<and>
             fy (store (updatePhysics s) r) = Fin (f2 + (\<Sum>h\<leftarrow>objects s. snd (g h))) \<and>
             (\<forall>h\<in>set (objects s).
                (\<not> (live (store b h) \<and> otype (store b h) = HOLE) \<longrightarrow> g h = (0, 0)) \<and>
                (\<forall>x2 y2 d.
                   live (store b h) \<and> otype (store b h) = HOLE \<and>
                   xpos (store b h) = Fin x2 \<and> ypos (store b h) = Fin y2 \<and>
                   d = sqrt ((x2 - x1) * (x2 - x1) + (y2 - y1) * (y2 - y1)) \<longrightarrow>
                   (Fin d \<le> MIN_GRAVITY_DISTANCE \<or> Fin d \<ge> MAX_GRAVITY_DISTANCE \<longrightarrow>
                      g h = (0, 0)) \<and>
                   (MIN_GRAVITY_DISTANCE < Fin d \<and> Fin d < MAX_GRAVITY_DISTANCE \<longrightarrow>
                      Fin (sqrt (fst (g h) * fst (g h) + snd (g h) * snd (g h)))
                        = GRAVITY_STRENGTH / (Fin d * Fin d) \<and>
                      (\<exists>k. 0 < k \<and> g h = (k * (x2 - x1), k * (y2 - y1))))))"
proof -
  define g where "g = (\<lambda>h. pull x1 y1 (store b h))"
  have sb: "store b r = store s r"
    unfolding assms(3,4) using assms(1,2) by (rule turnOf_store)
  have ob: "objects b = objects s"
    by (simp add: assms(4) turnOf_frame)
  have nh: "otype (store b r) \<noteq> HOLE" and lb: "live (store b r)"
    using assms(5,6) by (simp_all add: sb)
  have "fx (store (fold (gravityFrom r) (objects s) b) r) =
           Fin (f1 + (\<Sum>h\<leftarrow>objects s. fst (pull x1 y1 (store b h)))) \<and>
        fy (store (fold (gravityFrom r) (objects s) b) r) =
           Fin (f2 + (\<Sum>h\<leftarrow>objects s. snd (pull x1 y1 (store b h))))"
    using nh assms(7-11) by (intro fold_gravityFrom_sum) (simp_all add: sb)
  then have a: "fx (store (applyGravity r b) r) = Fin (f1 + (\<Sum>h\<leftarrow>objects s. fst (g h)))"
    "fy (store (applyGravity r b) r) = Fin (f2 + (\<Sum>h\<leftarrow>objects s. snd (g h)))"
    by (simp_all add: applyGravity_other [OF nh] ob g_def)
  have "store (updatePhysics s) r = store (updateObject r b) r"
    unfolding assms(3,4) using assms(1,2) by (rule updatePhysics_store)
  then have u: "fx (store (updatePhysics s) r) = fx (store (applyGravity r b) r)"
    "fy (store (updatePhysics s) r) = fy (store (applyGravity r b) r)"
    by (simp_all add: updateObject_force [OF lb])
  have c: "(\<not> (live (store b h) \<and> otype (store b h) = HOLE) \<longrightarrow> g h = (0, 0)) \<and>
           (\<forall>x2 y2 d.
                   live (store b h) \<and> otype (store b h) = HOLE \<and>
                   xpos (store b h) = Fin x2 \<and> ypos (store b h) = Fin y2 \<and>
                   d = sqrt ((x2 - x1) * (x2 - x1) + (y2 - y1) * (y2 - y1)) \<longrightarrow>
                   (Fin d \<le> MIN_GRAVITY_DISTANCE \<or> Fin d \<ge> MAX_GRAVITY_DISTANCE \<longrightarrow>
                      g h = (0, 0)) \<and>
                   (MIN_GRAVITY_DISTANCE < Fin d \<and> Fin d < MAX_GRAVITY_DISTANCE \<longrightarrow>
                      Fin (sqrt (fst (g h) * fst (g h) + snd (g h) * snd (g h)))
                        = GRAVITY_STRENGTH / (Fin d * Fin d) \<and>
                      (\<exists>k. 0 < k \<and> g h = (k * (x2 - x1), k * (y2 - y1)))))" for h
  proof (intro conjI impI allI)
    assume "\<not> (live (store b h) \<and> otype (store b h) = HOLE)"
    then show "g h = (0, 0)" unfolding g_def by (rule pull_other)
  next
    fix x2 y2 d
    assume h: "live (store b h) \<and> otype (store b h) = HOLE \<and>
                   xpos (store b h) = Fin x2 \<and> ypos (store b h) = Fin y2 \<and>
                   d = sqrt ((x2 - x1) * (x2 - x1) + (y2 - y1) * (y2 - y1))"
      and o: "Fin d \<le> MIN_GRAVITY_DISTANCE \<or> Fin d \<ge> MAX_GRAVITY_DISTANCE"
    from h have "xpos (store b h) = Fin x2" "ypos (store b h) = Fin y2"
      "d = sqrt ((x2 - x1) * (x2 - x1) + (y2 - y1) * (y2 - y1))"
      by simp_all
    then show "g h = (0, 0)" unfolding g_def using o by (rule pull_outside)
  next
    fix x2 y2 d
    assume h: "live (store b h) \<and> otype (store b h) = HOLE \<and>
                   xpos (store b h) = Fin x2 \<and> ypos (store b h) = Fin y2 \<and>
                   d = sqrt ((x2 - x1) * (x2 - x1) + (y2 - y1) * (y2 - y1))"
      and o: "MIN_GRAVITY_DISTANCE < Fin d \<and> Fin d < MAX_GRAVITY_DISTANCE"
    from h have f: "live (store b h)" "otype (store b h) = HOLE"
      "xpos (store b h) = Fin x2" "ypos (store b h) = Fin y2"
      "d = sqrt ((x2 - x1) * (x2 - x1) + (y2 - y1) * (y2 - y1))"
      by simp_all
    from f o show "Fin (sqrt (fst (g h) * fst (g h) + snd (g h) * snd (g h)))
                        = GRAVITY_STRENGTH / (Fin d * Fin d)"
      unfolding g_def by (rule pull_inside(1))
    from f o show "\<exists>k. 0 < k \<and> g h = (k * (x2 - x1), k * (y2 - y1))"
      unfolding g_def by (rule pull_inside(2))
  qed
  note au = u [unfolded a]
  show ?thesis
    by (intro exI [of _ g] conjI ballI a au c [THEN conjunct1] c [THEN conjunct2])
qed

lemma orbit_arrays: "objects orbit = [0, Suc 0, 2]"
  by (simp add: orbit_def fixture_defs)

theorem updatePhysics_gravity_witness:
  "distinct (objects orbit) \<and> objects orbit = [0, 1, 2] \<and>
   live (store orbit 0) \<and> otype (store orbit 0) = BALL_SMALL \<and>
   live (store orbit 1) \<and> otype (store orbit 1) = HOLE \<and>
   live (store orbit 2) \<and> otype (store orbit 2) = HOLE \<and>
   MIN_GRAVITY_DISTANCE < Fin 100 \<and> Fin 100 < MAX_GRAVITY_DISTANCE \<and>
   Fin 10 \<le> MIN_GRAVITY_DISTANCE \<and>
   fx (store (applyGravity 0 orbit) 0) = Fin (1 / 10) \<and>
   fy (store (applyGravity 0 orbit) 0) = Fin 0 \<and>
   fx (store (updatePhysics orbit) 0) = Fin (1 / 10) \<and>
   fy (store (updatePhysics orbit) 0) = Fin 0"
proof -
  have fin: "\<forall>h\<in>set (objects orbit). live (store orbit h) \<and> otype (store orbit h) = HOLE \<longrightarrow>
           isFinite (xpos (store orbit h)) \<and> isFinite (ypos (store orbit h))"
    by (simp add: orbit_arrays orbit_fields)
  have h: "distinct (objects orbit)" "0 < length (objects orbit)" "0 = objects orbit ! 0"
    "orbit = turnOf 0 orbit" "live (store orbit 0)" "otype (store orbit 0) \<noteq> HOLE"
    "xpos (store orbit 0) = Fin 100" "ypos (store orbit 0) = Fin 100"
    "fx (store orbit 0) = Fin 0" "fy (store orbit 0) = Fin 0"
    by (simp_all add: orbit_arrays orbit_fields turnOf_first)
  from updatePhysics_gravity [OF h fin]
  obtain g where G:
    "fx (store (applyGravity 0 orbit) 0) = Fin (0 + (\<Sum>h\<leftarrow>objects orbit. fst (g h))) \<and>
     fy (store (applyGravity 0 orbit) 0) = Fin (0 + (\<Sum>h\<leftarrow>objects orbit. snd (g h))) \<and>
     fx (store (updatePhysics orbit) 0) = Fin (0 + (\<Sum>h\<leftarrow>objects orbit. fst (g h))) \<and>
     fy (store (updatePhysics orbit) 0) = Fin (0 + (\<Sum>h\<leftarrow>objects orbit. snd (g h))) \<and>
     (\<forall>h\<in>set (objects orbit).
        (\<not> (live (store orbit h) \<and> otype (store orbit h) = HOLE) \<longrightarrow> g h = (0, 0)) \<and>
        (\<forall>x2 y2 d.
           live (store orbit h) \<and> otype (store orbit h) = HOLE \<and>
           xpos (store orbit h) = Fin x2 \<and> ypos (store orbit h) = Fin y2 \<and>
           d = sqrt ((x2 - 100) * (x2 - 100) + (y2 - 100) * (y2 - 100)) \<longrightarrow>
           (Fin d \<le> MIN_GRAVITY_DISTANCE \<or> Fin d \<ge> MAX_GRAVITY_DISTANCE \<longrightarrow>
              g h = (0, 0)) \<and>
           (MIN_GRAVITY_DISTANCE < Fin d \<and> Fin d < MAX_GRAVITY_DISTANCE \<longrightarrow>
              Fin (sqrt (fst (g h) * fst (g h) + snd (g h) * snd (g h)))
                = GRAVITY_STRENGTH / (Fin d * Fin d) \<and>
              (\<exists>k. 0 < k \<and> g h = (k * (x2 - 100), k * (y2 - 100))))))"
    ..
  note g = G [THEN conjunct1] G [THEN conjunct2, THEN conjunct1]
    G [THEN conjunct2, THEN conjunct2, THEN conjunct1]
    G [THEN conjunct2, THEN conjunct2, THEN conjunct2, THEN conjunct1]
  note c = G [THEN conjunct2, THEN conjunct2, THEN conjunct2, THEN conjunct2, THEN bspec]
  have g0: "g 0 = (0, 0)"
    using c [of 0] by (simp add: orbit_arrays orbit_fields)
  have g2: "g 2 = (0, 0)"
    using c [of 2, THEN conjunct2, rule_format, of 110 100 10]
    by (simp add: orbit_arrays orbit_fields sqrt_100 MIN_GRAVITY_DISTANCE_def)
  from c [of "Suc 0", THEN conjunct2, rule_format, of 200 100 100]
  have "Fin (sqrt (fst (g (Suc 0)) * fst (g (Suc 0)) + snd (g (Suc 0)) * snd (g (Suc 0))))
          = GRAVITY_STRENGTH / (Fin 100 * Fin 100) \<and>
        (\<exists>k. 0 < k \<and> g (Suc 0) = (k * (200 - 100), k * (100 - 100)))"
    by (simp add: orbit_arrays orbit_fields sqrt_10000 MIN_GRAVITY_DISTANCE_def
          MAX_GRAVITY_DISTANCE_def)
  then obtain k where k: "0 < k" "g (Suc 0) = (k * 100, 0)"
    and m: "Fin (sqrt (fst (g (Suc 0)) * fst (g (Suc 0)) + snd (g (Suc 0)) * snd (g (Suc 0))))
          = GRAVITY_STRENGTH / (Fin 100 * Fin 100)"
    by auto
  have "sqrt (10000 * (k * k)) = 100 * k"
    using k(1) by (simp add: real_sqrt_mult sqrt_10000)
  with m k have "k * 100 = 1 / 10"
    by (simp add: GRAVITY_STRENGTH_def)
  then have g1: "g (Suc 0) = (1 / 10, 0)"
    using k(2) by simp
  show ?thesis
    using g by (simp add: orbit_arrays orbit_fields g0 g1 g2 MIN_GRAVITY_DISTANCE_def
          MAX_GRAVITY_DISTANCE_def)
qed

subsection \<open>The walls\<close>

lemma touchesWall_same:
  assumes "store t q = store s q" "screenWidth t = screenWidth s"
    "screenHeight t = screenHeight s"
  shows "touchesWall q t = touchesWall q s"
  by (simp add: touchesWall_def assms)

lemma updateObject_wall:
  assumes "otype (store s q) \<noteq> HOLE" "touchesWall q (updateObject q s)"
  shows "\<not> live (store (updateObject q s) q)"
proof (cases "live (store s q)")
  case False
  then show ?thesis by (simp add: updateObject_moveObject)
next
  case True
  then have u: "updateObject q s = keepInBounds q (moveObject q s)"
    by (simp add: updateObject_moveObject)
  show ?thesis
  proof (cases "touchesWall q (moveObject q s)")
    case True
    from keepInBounds_hit [OF this] assms(1) show ?thesis
      by (simp add: u moveObject_frame)
  next
    case False
    with assms(2) show ?thesis by (simp add: u keepInBounds_miss)
  qed
qed

lemma fold_updateObject_wall:
  assumes "q \<in> set xs" "otype (store s q) \<noteq> HOLE" "touchesWall q (fold updateObject xs s)"
  shows "\<not> live (store (fold updateObject xs s) q)"
  using assms
proof (induction xs rule: rev_induct)
  case Nil
  then show ?case by simp
next
  case (snoc x xs)
  define t where "t = fold updateObject xs s"
  have f: "fold updateObject (xs @ [x]) s = updateObject x t"
    by (simp add: t_def)
  show ?case
  proof (cases "x = q")
    case True
    have "otype (store t q) \<noteq> HOLE"
      using snoc.prems(2) by (simp add: t_def fold_updateObject_frame)
    moreover have "touchesWall q (updateObject q t)"
      using snoc.prems(3) True unfolding f by simp
    ultimately have "\<not> live (store (updateObject q t) q)"
      by (rule updateObject_wall)
    then show ?thesis
      using True by (simp add: t_def)
  next
    case False
    with snoc.prems(1) have q: "q \<in> set xs" by simp
    have same: "store (updateObject x t) q = store t q"
      using False by (simp add: updateObject_frame)
    have "touchesWall q (updateObject x t) = touchesWall q t"
      by (rule touchesWall_same) (simp_all add: same updateObject_frame)
    with snoc.prems(3) have "touchesWall q t" unfolding f by simp
    with snoc.IH [OF q snoc.prems(2)] have "\<not> live (store t q)" by (simp add: t_def)
    then show ?thesis unfolding f by (simp add: same)
  qed
qed

lemma handleSpecialCollisions_live:
  "live (store (handleSpecialCollisions r1 r2 s) q) \<Longrightarrow> live (store s q)"
  by (simp add: handleSpecialCollisions_def Let_def split: if_splits)

lemma handleCollision_live:
  "live (store (handleCollision r1 r2 dx dy d s) q) \<Longrightarrow> live (store s q)"
  by (auto simp add: handleCollision_def Let_def dest!: handleSpecialCollisions_live
        split: if_splits)

lemma checkPair_live: "live (store (checkPair r1 r2 s) q) \<Longrightarrow> live (store s q)"
  by (auto simp add: checkPair_def Let_def dest: handleCollision_live split: if_splits)

lemma fold_live:
  assumes "\<And>x s. live (store (f x s) q) \<Longrightarrow> live (store s q)"
    and "live (store (fold f xs s) q)"
  shows "live (store s q)"
  using assms(2) by (induction xs arbitrary: s) (auto dest: assms(1))

lemma checkCollisions_live: "live (store (checkCollisions s) q) \<Longrightarrow> live (store s q)"
  unfolding checkCollisions_def Let_def
  by (erule fold_live [rotated]) (erule fold_live [rotated], erule checkPair_live)

lemma sqrt_39601: "sqrt (39601 / 10000) = 199 / 100" "sqrt (39601 / 40000) = 199 / 200"
  using real_sqrt_abs [of "199 / 100"] real_sqrt_abs [of "199 / 200"]
  by (simp_all add: power2_eq_square)

lemma abs_le_sqrt: "\<bar>a\<bar> \<le> sqrt (a * a + b * b)"
proof -
  have "sqrt (a * a) \<le> sqrt (a * a + b * b)"
    by (rule real_sqrt_le_mono) simp
  then show ?thesis by simp
qed

lemma checkPair_apart:
  assumes "xpos (store s r1) = Fin a" "xpos (store s r2) = Fin b"
    and "ypos (store s r1) = Fin c" "ypos (store s r2) = Fin d"
    and "radius (store s r1) = Fin p" "radius (store s r2) = Fin q"
    and "p + q \<le> \<bar>b - a\<bar>"
  shows "checkPair r1 r2 s = s"
proof -
  have "\<bar>b - a\<bar> \<le> sqrt ((b - a) * (b - a) + (d - c) * (d - c))"
    by (rule abs_le_sqrt)
  with assms(7) have "\<not> sqrt ((b - a) * (b - a) + (d - c) * (d - c)) < p + q"
    by simp
  then show ?thesis
    by (simp add: checkPair_def Let_def assms(1-6) sum_nonneg_squares)
qed

lemma drifting_fields:
  "objects drifting = [0, Suc 0]" "rockets drifting = [Suc 0]"
  "deltaTime drifting = Fin (1 / 60)"
  "screenWidth drifting = Fin 800" "screenHeight drifting = Fin 600"
  "score drifting = 0" "level drifting = 1" "lives drifting = 3" "emitted drifting = []"
  "gameState drifting = Running"
  "store drifting 0 =
     \<lparr>otype = BALL_SMALL, xpos = Fin 7, ypos = Fin 300, vx = Fin 2, vy = Fin 0,
      fx = Fin 0, fy = Fin 0, radius = Fin 8, mass = Fin 3, live = True, playerId = - 1\<rparr>"
  "store drifting (Suc 0) =
     \<lparr>otype = ROCKET, xpos = Fin 400, ypos = Fin 300, vx = Fin 0, vy = Fin 0,
      fx = Fin 0, fy = Fin 0, radius = Fin 14, mass = Fin 4, live = True, playerId = - 1\<rparr>"
  by (simp_all add: drifting_def fixture_defs)

lemma drifting_tick: "drifting\<lparr>deltaTime := Fin 1 / Fin 60\<rparr> = drifting"
  by (simp add: drifting_def)

lemma drifting_move:
  "moveObject 0 drifting =
     mutate 0 (\<lambda>obj. obj\<lparr>vx := Fin (199 / 100), xpos := Fin (899 / 100)\<rparr>) drifting"
  by (simp add: moveObject_def Let_def applyGravity_no_holes drifting_fields object_step_defs
        mutate_same sqrt_39601 mutate_def)

lemma drifting_physics:
  "updatePhysics drifting = moveObject 0 drifting"
  "checkCollisions (moveObject 0 drifting) = moveObject 0 drifting"
  "updateObjects (moveObject 0 drifting) = moveObject 0 drifting"
  "checkGameState (moveObject 0 drifting) = Inr (moveObject 0 drifting)"
  "\<not> touchesWall 0 (moveObject 0 drifting)"
proof -
  define D1 where "D1 = moveObject 0 drifting"
  have D1: "objects D1 = [0, Suc 0]" "rockets D1 = [Suc 0]" "deltaTime D1 = Fin (1 / 60)"
    "screenWidth D1 = Fin 800" "screenHeight D1 = Fin 600"
    "store D1 0 =
       \<lparr>otype = BALL_SMALL, xpos = Fin (899 / 100), ypos = Fin 300, vx = Fin (199 / 100),
        vy = Fin 0, fx = Fin 0, fy = Fin 0, radius = Fin 8, mass = Fin 3, live = True,
        playerId = - 1\<rparr>"
    "store D1 (Suc 0) = store drifting (Suc 0)"
    by (simp_all add: D1_def drifting_move drifting_fields)
  show w: "\<not> touchesWall 0 (moveObject 0 drifting)"
    unfolding D1_def [symmetric] by (simp add: touchesWall_def D1)
  have u0: "updateObject 0 drifting = D1"
    using w by (simp add: updateObject_moveObject keepInBounds_miss drifting_fields D1_def)
  have u1: "updateObject (Suc 0) D1 = D1"
    by (simp add: updateObject_def Let_def applyGravity_no_holes D1 drifting_fields
          object_step_defs mutate_same keepInBounds_def)
  show "updatePhysics drifting = moveObject 0 drifting"
    unfolding D1_def [symmetric] by (simp add: updatePhysics_def drifting_fields u0 u1)
  have "checkPair 0 (Suc 0) D1 = D1"
    by (rule checkPair_apart [where a = "899 / 100" and b = 400 and c = 300 and d = 300
          and p = 8 and q = 14]) (simp_all add: D1 drifting_fields)
  then show "checkCollisions (moveObject 0 drifting) = moveObject 0 drifting"
    unfolding D1_def [symmetric] by (simp add: checkCollisions_two [OF D1(1)])
  have "filter (\<lambda>r. live (store D1 r)) (objects D1) = objects D1"
    by (simp add: D1 drifting_fields)
  then show "updateObjects (moveObject 0 drifting) = moveObject 0 drifting"
    unfolding D1_def [symmetric] updateObjects_def by simp
  show "checkGameState (moveObject 0 drifting) = Inr (moveObject 0 drifting)"
    unfolding D1_def [symmetric]
    by (simp add: checkGameState_def Let_def aliveBalls_def aliveRockets_def isBall_def D1
          drifting_fields)
qed

text \<open>
  C8 as stated fails: an alive object that is within one radius of an edge during a tick
  need not die in that tick. \<open>keepInBounds\<close> looks at an object once per tick, after the
  object has moved. A small ball of radius 8 at \<open>x = 7\<close> that moves to the right at 2 per
  tick is at \<open>x = 8.99\<close> when it is looked at: it is alive when the tick has ended, the
  score is what it was and no death sound was played.
\<close>

theorem wall_zone_survivor_counterexample:
  "gameState drifting = Running \<and> live (store drifting 0) \<and>
   otype (store drifting 0) = BALL_SMALL \<and> xpos (store drifting 0) = Fin 7 \<and>
   radius (store drifting 0) = Fin 8 \<and> touchesWall 0 drifting \<and>
   gameLoop (Fin 1) idle drifting = Inr (emit (ScoreUpdate 0 1 3) (updatePhysics drifting)) \<and>
   live (store (emit (ScoreUpdate 0 1 3) (updatePhysics drifting)) 0) \<and>
   xpos (store (emit (ScoreUpdate 0 1 3) (updatePhysics drifting)) 0) = Fin (899 / 100) \<and>
   score (emit (ScoreUpdate 0 1 3) (updatePhysics drifting)) = score drifting \<and>
   emitted (emit (ScoreUpdate 0 1 3) (updatePhysics drifting)) = [ScoreUpdate 0 1 3]"
proof -
  have p: "processInput idle drifting = drifting"
    by (simp add: processInput_def processRocket_def idle_def Let_def drifting_fields
          mutate_same)
  have g: "gameLoop (Fin 1) idle drifting =
             Inr (emit (ScoreUpdate 0 1 3) (updatePhysics drifting))"
    unfolding gameLoop_running [OF drifting_fields(10)] drifting_tick p
    unfolding drifting_physics(1) drifting_physics(2) drifting_physics(3) drifting_physics(4)
    by (simp add: andThen_def drifting_move drifting_fields)
  show ?thesis
    unfolding g unfolding drifting_physics(1)
    by (simp add: drifting_move drifting_fields touchesWall_def)
qed

text \<open>
  C8, amended. Let \<open>r\<close> be an alive object of \<open>this.objects\<close> and \<open>b\<close> the engine when the
  loop of \<open>updatePhysics\<close> reaches \<open>r\<close>. If \<open>r\<close> is not a hole and, after its move, is nearer
  than its radius to an edge of the screen (or beyond the edge), then its step takes the
  score up by 5 for a small ball, by 10 for a large ball and by nothing otherwise, and
  ends with the death sound (\<open>rocketDeath\<close> for a rocket, \<open>objectDeath\<close> otherwise); \<open>r\<close> is
  dead when \<open>updatePhysics\<close> has ended, stays dead in \<open>checkCollisions\<close> and is dropped
  from \<open>this.objects\<close> by \<open>updateObjects\<close>. If \<open>r\<close> is a hole, or is not nearer than its
  radius to any edge after its move, \<open>keepInBounds\<close> changes nothing and \<open>r\<close> is alive when
  \<open>updatePhysics\<close> has ended. So when \<open>updatePhysics\<close> has ended, no alive object of
  \<open>this.objects\<close> other than a hole is nearer than its radius to an edge. \<open>updatePhysics\<close>,
  \<open>checkCollisions\<close> and \<open>updateObjects\<close> run in this order in every tick of a running game
  (\<open>gameLoop_running\<close>).
\<close>

theorem updatePhysics_wall_death:
  assumes "distinct (objects s)" "i < length (objects s)" "r = objects s ! i"
    and "b = turnOf i s" "live (store s r)"
  shows "(otype (store s r) \<noteq> HOLE \<and> touchesWall r (moveObject r b) \<longrightarrow>
            score (updateObject r b) = score b + wallPoints (otype (store s r)) \<and>
            last (emitted (updateObject r b)) = PlaySound (deathSound (otype (store s r))) \<and>
            \<not> live (store (updatePhysics s) r) \<and>
            \<not> live (store (checkCollisions (updatePhysics s)) r) \<and>
            r \<notin> set (objects (updateObjects (checkCollisions (updatePhysics s))))) \<and>
         (otype (store s r) = HOLE \<or> \<not> touchesWall r (moveObject r b) \<longrightarrow>
            updateObject r b = moveObject r b \<and> live (store (updatePhysics s) r)) \<and>
         (\<forall>q\<in>set (objects s).
            otype (store s q) \<noteq> HOLE \<and> touchesWall q (updatePhysics s) \<longrightarrow>
            \<not> live (store (updatePhysics s) q))"
proof -
  have sb: "store b r = store s r"
    unfolding assms(3,4) using assms(1,2) by (rule turnOf_store)
  have lb: "live (store b r)"
    using assms(5) by (simp add: sb)
  have u: "updateObject r b = keepInBounds r (moveObject r b)"
    using lb by (simp add: updateObject_moveObject)
  have ot: "otype (store (moveObject r b) r) = otype (store s r)"
    by (simp add: moveObject_frame sb)
  have p: "store (updatePhysics s) r = store (updateObject r b) r"
    unfolding assms(3,4) using assms(1,2) by (rule updatePhysics_store)
  have hit: "score (updateObject r b) = score b + wallPoints (otype (store s r)) \<and>
            last (emitted (updateObject r b)) = PlaySound (deathSound (otype (store s r))) \<and>
            \<not> live (store (updatePhysics s) r) \<and>
            \<not> live (store (checkCollisions (updatePhysics s)) r) \<and>
            r \<notin> set (objects (updateObjects (checkCollisions (updatePhysics s))))"
    if "otype (store s r) \<noteq> HOLE \<and> touchesWall r (moveObject r b)"
  proof -
    from that keepInBounds_hit [of r "moveObject r b"]
    have k: "\<not> live (store (updateObject r b) r)"
      "score (updateObject r b) = score b + wallPoints (otype (store s r))"
      "last (emitted (updateObject r b)) = PlaySound (deathSound (otype (store s r)))"
      by (simp_all add: u ot moveObject_frame sb)
    from k(1) have d: "\<not> live (store (updatePhysics s) r)" by (simp add: p)
    then have c: "\<not> live (store (checkCollisions (updatePhysics s)) r)"
      by (blast dest: checkCollisions_live)
    then have "r \<notin> set (objects (updateObjects (checkCollisions (updatePhysics s))))"
      by (simp add: updateObjects_def)
    with k d c show ?thesis by simp
  qed
  have miss: "updateObject r b = moveObject r b \<and> live (store (updatePhysics s) r)"
    if "otype (store s r) = HOLE \<or> \<not> touchesWall r (moveObject r b)"
  proof -
    have "keepInBounds r (moveObject r b) = moveObject r b"
    proof (cases "touchesWall r (moveObject r b)")
      case True
      with that have "otype (store (moveObject r b) r) = HOLE" by (simp add: ot)
      with keepInBounds_hit [OF True] show ?thesis by simp
    next
      case False
      then show ?thesis by (rule keepInBounds_miss)
    qed
    then have "updateObject r b = moveObject r b" by (simp add: u)
    then show ?thesis using lb by (simp add: p moveObject_frame)
  qed
  have zone: "\<not> live (store (updatePhysics s) q)"
    if "q \<in> set (objects s)" "otype (store s q) \<noteq> HOLE \<and> touchesWall q (updatePhysics s)" for q
    using that unfolding updatePhysics_def by (intro fold_updateObject_wall) simp_all
  from hit miss zone show ?thesis by blast
qed

lemma edgeCases_fields:
  "screenWidth edgeCases = Fin 800" "screenHeight edgeCases = Fin 600" "score edgeCases = 0"
  "store edgeCases 0 =
     \<lparr>otype = BALL_SMALL, xpos = Fin 5, ypos = Fin 300, vx = Fin (- 1), vy = Fin 0,
      fx = Fin 0, fy = Fin 0, radius = Fin 8, mass = Fin 3, live = True, playerId = - 1\<rparr>"
  "store edgeCases (Suc 0) =
     \<lparr>otype = BALL_LARGE, xpos = Fin 790, ypos = Fin 300, vx = Fin 0, vy = Fin 0,
      fx = Fin 0, fy = Fin 0, radius = Fin 16, mass = Fin 6, live = True, playerId = - 1\<rparr>"
  "store edgeCases 2 =
     \<lparr>otype = HOLE, xpos = Fin 5, ypos = Fin 300, vx = Fin 0, vy = Fin 0,
      fx = Fin 0, fy = Fin 0, radius = Fin 12, mass = Fin 1, live = True, playerId = - 1\<rparr>"
  by (simp_all add: edgeCases_def fixture_defs)

lemma edgeCases_arrays:
  "objects edgeCases = [0, Suc 0, 2]" "deltaTime edgeCases = Fin 0"
  by (simp_all add: edgeCases_def fixture_defs)

lemma edgeCases_move:
  "xpos (store (moveObject 0 edgeCases) 0) = Fin (801 / 200)"
proof -
  have g: "applyGravity 0 edgeCases = edgeCases"
    by (simp add: applyGravity_def gravityFrom_def Let_def edgeCases_fields edgeCases_arrays
          MIN_GRAVITY_DISTANCE_def MAX_GRAVITY_DISTANCE_def)
  show ?thesis
    by (simp add: moveObject_def Let_def g edgeCases_fields edgeCases_arrays object_step_defs
          sqrt_39601)
qed

lemma edgeCases_hole:
  "xpos (store (moveObject 2 (turnOf 2 edgeCases)) 2) = Fin 5"
proof -
  define b where "b = turnOf 2 edgeCases"
  have "store b (objects edgeCases ! 2) = store edgeCases (objects edgeCases ! 2)"
    unfolding b_def by (rule turnOf_store) (simp_all add: edgeCases_arrays)
  then have s: "store b 2 = store edgeCases 2"
    by (simp add: edgeCases_arrays)
  have d: "deltaTime b = Fin 0"
    by (simp add: b_def turnOf_frame edgeCases_arrays)
  have g: "applyGravity 2 b = b"
    by (rule applyGravity_hole) (simp add: s edgeCases_fields)
  show ?thesis
    unfolding b_def [symmetric]
    by (simp add: moveObject_def Let_def g d s edgeCases_fields object_step_defs)
qed

theorem updatePhysics_wall_death_witness:
  "distinct (objects edgeCases) \<and> live (store edgeCases 0) \<and>
   otype (store edgeCases 0) = BALL_SMALL \<and> touchesWall 0 (moveObject 0 edgeCases) \<and>
   score (updateObject 0 edgeCases) = score edgeCases + 5 \<and>
   last (emitted (updateObject 0 edgeCases)) = PlaySound objectDeath \<and>
   \<not> live (store (updatePhysics edgeCases) 0) \<and>
   0 \<notin> set (objects (updateObjects (checkCollisions (updatePhysics edgeCases)))) \<and>
   touchesWall 0 (updatePhysics edgeCases) \<and>
   live (store edgeCases 2) \<and> otype (store edgeCases 2) = HOLE \<and>
   touchesWall 2 (moveObject 2 (turnOf 2 edgeCases)) \<and>
   updateObject 2 (turnOf 2 edgeCases) = moveObject 2 (turnOf 2 edgeCases) \<and>
   live (store (updatePhysics edgeCases) 2) \<and>
   distinct (objects drifting) \<and> live (store drifting 0) \<and>
   \<not> touchesWall 0 (moveObject 0 drifting) \<and>
   updateObject 0 drifting = moveObject 0 drifting \<and>
   live (store (updatePhysics drifting) 0)"
proof -
  have w: "touchesWall 0 (moveObject 0 edgeCases)"
    by (simp add: touchesWall_def edgeCases_move moveObject_frame edgeCases_fields)
  have "store (updatePhysics edgeCases) 0 = store (updateObject 0 edgeCases) 0"
    using updatePhysics_store [of edgeCases 0] by (simp add: edgeCases_arrays turnOf_first)
  then have z: "touchesWall 0 (updatePhysics edgeCases)"
    by (simp add: touchesWall_def updatePhysics_def fold_updateObject_frame
          updateObject_moveObject keepInBounds_frame moveObject_frame edgeCases_move
          edgeCases_fields)
  have e: "touchesWall 2 (moveObject 2 (turnOf 2 edgeCases))"
    by (simp add: touchesWall_def edgeCases_hole moveObject_frame turnOf_frame
          edgeCases_fields)
  from updatePhysics_wall_death [of edgeCases 0 0 edgeCases]
    updatePhysics_wall_death [of edgeCases 2 2 "turnOf 2 edgeCases"]
    updatePhysics_wall_death [of drifting 0 0 drifting]
    w z e drifting_physics(5)
  show ?thesis
    by (simp add: edgeCases_arrays edgeCases_fields drifting_fields turnOf_first
          wallPoints_def deathSound_def)
qed

end
